theory Spec2Isabelle
  imports Main "HOL-Library.Char_ord" "HOL-Library.List_Lexorder"
begin

section \<open>Strings\<close>

text \<open>
  A JavaScript string is a sequence of UTF-16 code units. The model keeps the code units
  below 256: a \<^typ>\<open>char\<close> stands for the code unit of the same number, so that the
  registry keys, the file names and the import paths of the tool (all ASCII) are
  represented exactly. On this range \<open>String.prototype.toLowerCase\<close> maps \<open>A\<close>..\<open>Z\<close>
  and the Latin-1 capitals (\<open>0xC0\<close>..\<open>0xDE\<close> without \<open>0xD7\<close>) to the letter 32
  code units above, and leaves every other code unit alone.
\<close>

definition upperToLower :: "(char \<times> char) list" where
  "upperToLower =
     zip ''ABCDEFGHIJKLMNOPQRSTUVWXYZ'' ''abcdefghijklmnopqrstuvwxyz'' @
     zip [CHR 0xC0, CHR 0xC1, CHR 0xC2, CHR 0xC3, CHR 0xC4, CHR 0xC5, CHR 0xC6, CHR 0xC7,
          CHR 0xC8, CHR 0xC9, CHR 0xCA, CHR 0xCB, CHR 0xCC, CHR 0xCD, CHR 0xCE, CHR 0xCF,
          CHR 0xD0, CHR 0xD1, CHR 0xD2, CHR 0xD3, CHR 0xD4, CHR 0xD5, CHR 0xD6,
          CHR 0xD8, CHR 0xD9, CHR 0xDA, CHR 0xDB, CHR 0xDC, CHR 0xDD, CHR 0xDE]
         [CHR 0xE0, CHR 0xE1, CHR 0xE2, CHR 0xE3, CHR 0xE4, CHR 0xE5, CHR 0xE6, CHR 0xE7,
          CHR 0xE8, CHR 0xE9, CHR 0xEA, CHR 0xEB, CHR 0xEC, CHR 0xED, CHR 0xEE, CHR 0xEF,
          CHR 0xF0, CHR 0xF1, CHR 0xF2, CHR 0xF3, CHR 0xF4, CHR 0xF5, CHR 0xF6,
          CHR 0xF8, CHR 0xF9, CHR 0xFA, CHR 0xFB, CHR 0xFC, CHR 0xFD, CHR 0xFE]"

definition toLowerCase_char :: "char \<Rightarrow> char" where
  "toLowerCase_char c = (case map_of upperToLower c of Some l \<Rightarrow> l | None \<Rightarrow> c)"

definition toLowerCase :: "string \<Rightarrow> string" where
  "toLowerCase s = map toLowerCase_char s"

section \<open>The component registry\<close>

record ComponentDefinition =
  name :: string
  description :: string
  dependencies :: "string list"
  internalDependencies :: "string list"
  files :: "string list"

text \<open>
  The registry is an object literal: its own properties in the order they are written,
  which is the order \<open>Object.keys\<close> and \<open>Object.entries\<close> enumerate them in. An object
  has each key once; no statement below depends on it.
\<close>

type_synonym Registry = "(string \<times> ComponentDefinition) list"

definition component ::
  "string \<Rightarrow> string \<Rightarrow> string list \<Rightarrow> string list \<Rightarrow> string list \<Rightarrow> ComponentDefinition" where
  "component n d deps ideps fs =
     \<lparr>name = n, description = d, dependencies = deps, internalDependencies = ideps, files = fs\<rparr>"

definition registry :: Registry where
  "registry =
   [(''accordion'', component ''Accordion''
       ''A vertically stacked set of interactive headings that reveal content''
       [''lucide-react''] [] [''Accordion.tsx'']),
    (''alert'', component ''Alert'' ''Displays a callout for user attention''
       [''lucide-react''] [] [''Alert.tsx'']),
    (''alertdialog'', component ''AlertDialog''
       ''A modal dialog that interrupts the user with important content''
       [''lucide-react''] [''button''] [''AlertDialog.tsx'']),
    (''avatar'', component ''Avatar'' ''An image element with a fallback for user profiles''
       [] [] [''Avatar.tsx'']),
    (''badge'', component ''Badge'' ''Displays a small badge or tag'' [] [] [''Badge.tsx'']),
    (''button'', component ''Button''
       ''A clickable button with multiple variants and ripple effect'' [] [] [''Button.tsx'']),
    (''card'', component ''Card''
       ''A container for content with header, body, and footer sections'' [] [] [''Card.tsx'']),
    (''carousel'', component ''Carousel'' ''A slideshow component for cycling through elements''
       [''lucide-react''] [''button''] [''Carousel.tsx'']),
    (''checkbox'', component ''Checkbox''
       ''A control that allows the user to toggle between checked and unchecked''
       [''lucide-react''] [] [''Checkbox.tsx'']),
    (''dialog'', component ''Dialog'' ''A modal dialog for displaying content''
       [''lucide-react''] [] [''Dialog.tsx'']),
    (''dropdown'', component ''Dropdown'' ''A menu that appears on click or hover''
       [''lucide-react''] [] [''Dropdown.tsx'']),
    (''fontprovider'', component ''FontProvider''
       ''Provider for managing fonts across your application'' [] [] [''FontProvider.tsx'']),
    (''input'', component ''Input'' ''A text input field with multiple variants''
       [] [] [''Input.tsx'']),
    (''label'', component ''Label'' ''A label for form elements'' [] [] [''Label.tsx'']),
    (''notification'', component ''Notification''
       ''Toast-style notifications that appear at screen corners''
       [''lucide-react''] [] [''Notification.tsx'']),
    (''progress'', component ''Progress''
       ''Displays an indicator showing the completion progress of a task''
       [] [] [''Progress.tsx'']),
    (''radio'', component ''Radio''
       ''A set of checkable buttons where only one can be selected at a time''
       [] [] [''Radio.tsx'']),
    (''select'', component ''Select'' ''A dropdown for selecting from a list of options''
       [''lucide-react''] [] [''Select.tsx'']),
    (''separator'', component ''Separator'' ''A visual divider between content''
       [] [] [''Separator.tsx'']),
    (''sheet'', component ''Sheet'' ''A panel that slides in from the edge of the screen''
       [''lucide-react''] [] [''Sheet.tsx'']),
    (''skeleton'', component ''Skeleton'' ''A placeholder for content that is loading''
       [] [] [''Skeleton.tsx'']),
    (''slider'', component ''Slider'' ''An input for selecting a value from a range''
       [] [] [''Slider.tsx'']),
    (''switch'', component ''Switch'' ''A toggle switch for boolean values''
       [] [] [''Switch.tsx'']),
    (''tabs'', component ''Tabs'' ''A set of layered sections of content'' [] [] [''Tabs.tsx'']),
    (''textarea'', component ''Textarea'' ''A multi-line text input field''
       [] [] [''Textarea.tsx'']),
    (''toggle'', component ''Toggle'' ''A two-state button that can be on or off''
       [] [] [''Toggle.tsx'']),
    (''tooltip'', component ''Tooltip''
       ''A popup that displays information related to an element'' [] [] [''Tooltip.tsx''])]"

text \<open>
  \<open>registry[key]\<close> is a property read on a plain object, so it also finds what the object
  inherits from \<open>Object.prototype\<close>: for these keys the read yields a function (or, for
  \<open>__proto__\<close>, the prototype object), which is truthy and has none of the fields of a
  \<open>ComponentDefinition\<close>. Every other key that is not an own property reads \<open>undefined\<close>.
\<close>

definition objectPrototypeKeys :: "string list" where
  "objectPrototypeKeys =
     [''constructor'', ''__proto__'', ''hasOwnProperty'', ''isPrototypeOf'',
      ''propertyIsEnumerable'', ''toLocaleString'', ''toString'', ''valueOf'',
      ''__defineGetter__'', ''__defineSetter__'', ''__lookupGetter__'', ''__lookupSetter__'']"

datatype property = Component ComponentDefinition | Inherited

definition registry_get :: "Registry \<Rightarrow> string \<Rightarrow> property option" where
  "registry_get reg key =
     (case map_of reg key of
        Some def \<Rightarrow> Some (Component def)
      | None \<Rightarrow> if key \<in> set objectPrototypeKeys then Some Inherited else None)"

definition getAllComponentNames :: "Registry \<Rightarrow> string list" where
  "getAllComponentNames reg = map fst reg"

section \<open>The dependency resolver\<close>

datatype js_error = TypeError | IOError

text \<open>
  The state of the loop of \<open>resolveComponentDependencies\<close>: the set \<open>resolved\<close> in
  insertion order (the order \<open>Array.from\<close> returns), the array \<open>toProcess\<close> used as a
  stack whose top is its last element, and the lines written by \<open>console.warn\<close>.
\<close>

record ResolveState =
  resolved :: "string list"
  toProcess :: "string list"
  warnings :: "string list"

text \<open>
  One pass through the body of the \<open>while\<close> loop, for a non-empty \<open>toProcess\<close>. Reading
  \<open>internalDependencies\<close> of an inherited property gives \<open>undefined\<close>, and \<open>for ... of\<close>
  over \<open>undefined\<close> throws a \<open>TypeError\<close>.
\<close>

definition resolveStep :: "Registry \<Rightarrow> ResolveState \<Rightarrow> js_error + ResolveState" where
  "resolveStep reg s =
     (let nm = last (toProcess s);
          rest = butlast (toProcess s);
          normalizedName = toLowerCase nm
      in if normalizedName \<in> set (resolved s) then Inr (s\<lparr>toProcess := rest\<rparr>)
         else (case registry_get reg normalizedName of
                 None \<Rightarrow>
                   Inr (s\<lparr>toProcess := rest,
                          warnings := warnings s @ [''Unknown component: '' @ nm]\<rparr>)
               | Some Inherited \<Rightarrow> Inl TypeError
               | Some (Component def) \<Rightarrow>
                   Inr (s\<lparr>resolved := resolved s @ [normalizedName],
                          toProcess := rest @
                            filter (\<lambda>dep. dep \<notin> set (resolved s @ [normalizedName]))
                              (internalDependencies def)\<rparr>)))"

text \<open>
  The \<open>while\<close> loop. \<open>None\<close> is the value of a loop that never ends; the result of a loop
  that ends is the thrown error, or the resolved names with the warnings printed.
\<close>

partial_function (option) resolveLoop ::
  "Registry \<Rightarrow> ResolveState \<Rightarrow> (js_error + string list \<times> string list) option" where
  "resolveLoop reg s =
     (if toProcess s = [] then Some (Inr (resolved s, warnings s))
      else (case resolveStep reg s of
              Inl e \<Rightarrow> Some (Inl e)
            | Inr s' \<Rightarrow> resolveLoop reg s'))"

definition resolveComponentDependencies ::
  "Registry \<Rightarrow> string list \<Rightarrow> (js_error + string list \<times> string list) option" where
  "resolveComponentDependencies reg componentNames =
     resolveLoop reg \<lparr>resolved = [], toProcess = componentNames, warnings = []\<rparr>"

text \<open>
  \<open>getNpmDependencies\<close> collects into a \<open>Set\<close>, returned in insertion order. The names
  it is given come from the registry's own keys; an inherited key would make
  \<open>component.dependencies\<close> undefined and the inner \<open>for ... of\<close> throw.
\<close>

fun addAll :: "string list \<Rightarrow> string list \<Rightarrow> string list" where
  "addAll deps [] = deps"
| "addAll deps (d # ds) = addAll (if d \<in> set deps then deps else deps @ [d]) ds"

fun npmLoop :: "Registry \<Rightarrow> string list \<Rightarrow> string list \<Rightarrow> js_error + string list" where
  "npmLoop reg deps [] = Inr deps"
| "npmLoop reg deps (nm # rest) =
     (case registry_get reg (toLowerCase nm) of
        None \<Rightarrow> npmLoop reg deps rest
      | Some Inherited \<Rightarrow> Inl TypeError
      | Some (Component def) \<Rightarrow> npmLoop reg (addAll deps (dependencies def)) rest)"

definition getNpmDependencies :: "Registry \<Rightarrow> string list \<Rightarrow> js_error + string list" where
  "getNpmDependencies reg componentNames = npmLoop reg [] componentNames"

section \<open>The installation manifest\<close>

record Tailwind =
  config :: string
  css :: string

record Aliases =
  components :: string
  utils :: string

record DiamantConfig =
  schema :: "string option"
  typescript :: bool
  tailwind :: Tailwind
  aliases :: Aliases
  installedComponents :: "string list"

text \<open>
  What \<open>diamant.json\<close> holds: nothing (no such file), a text that \<open>JSON.parse\<close> rejects
  or parses to a falsy value, or a document of the shape of \<open>DiamantConfig\<close>.
  \<open>JSON.stringify\<close> followed by \<open>JSON.parse\<close> gives back such a document unchanged, so
  the file is modelled by the document it holds.
\<close>

datatype ManifestFile = Missing | Unparseable | Document DiamantConfig

text \<open>
  The target project on disk: the manifest, whether writing the manifest fails, the files
  under the components directory by file name, the file names there that cannot be written,
  and (for the statements about writes, not read by any operation) the documents that
  \<open>writeConfig\<close> has written so far. A file that exists is taken to be readable and
  removable.
\<close>

record Project =
  manifestFile :: ManifestFile
  manifestReadOnly :: bool
  componentFiles :: "string \<rightharpoonup> string"
  unwritable :: "string set"
  manifestWrites :: "DiamantConfig list"

definition configExists :: "Project \<Rightarrow> bool" where
  "configExists p = (manifestFile p \<noteq> Missing)"

definition readConfig :: "Project \<Rightarrow> DiamantConfig option" where
  "readConfig p = (case manifestFile p of Document cfg \<Rightarrow> Some cfg | _ \<Rightarrow> None)"

definition writeConfig :: "DiamantConfig \<Rightarrow> Project \<Rightarrow> js_error + Project" where
  "writeConfig cfg p =
     (if manifestReadOnly p then Inl IOError
      else Inr (p\<lparr>manifestFile := Document cfg, manifestWrites := manifestWrites p @ [cfg]\<rparr>))"

text \<open>
  \<open>Array.prototype.sort\<close> without a comparator orders strings by their code units, which
  is the lexicographic order of \<^typ>\<open>string\<close> over the order of \<^typ>\<open>char\<close> by code.
\<close>

definition addInstalledComponent :: "string \<Rightarrow> Project \<Rightarrow> js_error + Project" where
  "addInstalledComponent componentName p =
     (case readConfig p of
        None \<Rightarrow> Inr p
      | Some cfg \<Rightarrow>
          if componentName \<notin> set (installedComponents cfg)
          then writeConfig
                 (cfg\<lparr>installedComponents := sort (installedComponents cfg @ [componentName])\<rparr>) p
          else Inr p)"

text \<open>\<open>indexOf\<close> finds the first occurrence and \<open>splice(index, 1)\<close> removes that one.\<close>

definition removeInstalledComponent :: "string \<Rightarrow> Project \<Rightarrow> js_error + Project" where
  "removeInstalledComponent componentName p =
     (case readConfig p of
        None \<Rightarrow> Inr p
      | Some cfg \<Rightarrow>
          if componentName \<in> set (installedComponents cfg)
          then writeConfig
                 (cfg\<lparr>installedComponents := remove1 componentName (installedComponents cfg)\<rparr>) p
          else Inr p)"

definition isComponentInstalled :: "string \<Rightarrow> Project \<Rightarrow> bool" where
  "isComponentInstalled componentName p =
     (case readConfig p of
        None \<Rightarrow> False
      | Some cfg \<Rightarrow> componentName \<in> set (installedComponents cfg))"

section \<open>The content transform\<close>

text \<open>
  The code units that \<open>\s\<close> matches and that \<open>trim\<close> strips, below 256: tab, line feed,
  vertical tab, form feed, carriage return, space and no-break space.
\<close>

definition isWhiteSpace :: "char \<Rightarrow> bool" where
  "isWhiteSpace c =
     (c \<in> set [CHR 0x09, CHR 0x0A, CHR 0x0B, CHR 0x0C, CHR 0x0D, CHR 0x20, CHR 0xA0])"

definition isQuote :: "char \<Rightarrow> bool" where
  "isQuote c = (c = CHR 0x22 \<or> c = CHR 0x27)"

definition trim :: "string \<Rightarrow> string" where
  "trim s = rev (dropWhile isWhiteSpace (rev (dropWhile isWhiteSpace s)))"

fun stripPrefix :: "string \<Rightarrow> string \<Rightarrow> string option" where
  "stripPrefix [] s = Some s"
| "stripPrefix (p # ps) [] = None"
| "stripPrefix (p # ps) (c # cs) = (if p = c then stripPrefix ps cs else None)"

text \<open>
  A match of \<open>/from\s+["']\.\.\/\.\.\/lib\/utils["']/\<close> at the start of a text: the
  matched text and what follows it. The greedy \<open>\s+\<close> takes the whole run of white
  space; giving some of it back never helps, since a quote must follow and white space is
  not a quote.
\<close>

definition matchUtilsImport :: "string \<Rightarrow> (string \<times> string) option" where
  "matchUtilsImport s =
     (case stripPrefix ''from'' s of
        None \<Rightarrow> None
      | Some r1 \<Rightarrow>
          if takeWhile isWhiteSpace r1 = [] then None
          else (case dropWhile isWhiteSpace r1 of
                  [] \<Rightarrow> None
                | q1 # r2 \<Rightarrow>
                    if \<not> isQuote q1 then None
                    else (case stripPrefix ''../../lib/utils'' r2 of
                            None \<Rightarrow> None
                          | Some [] \<Rightarrow> None
                          | Some (q2 # r3) \<Rightarrow>
                              if isQuote q2
                              then Some (''from'' @ takeWhile isWhiteSpace r1 @ q1 #
                                           ''../../lib/utils'' @ [q2], r3)
                              else None)))"

text \<open>
  \<open>String.prototype.replace\<close> with a replacement text expands the patterns of that
  text at every match: \<open>$$\<close> is a dollar sign, \<open>$&\<close> the matched text, \<open>$`\<close> the
  subject before the match and \<open>$'\<close> the subject after it. The regular expression has no
  capture group, so \<open>$1\<close> and \<open>$<\<close> stand for themselves, as does any other dollar sign.
\<close>

fun getSubstitution :: "string \<Rightarrow> string \<Rightarrow> string \<Rightarrow> string \<Rightarrow> string" where
  "getSubstitution matched preceding following [] = []"
| "getSubstitution matched preceding following [c] = [c]"
| "getSubstitution matched preceding following (c # d # r) =
     (if c \<noteq> CHR ''$'' then c # getSubstitution matched preceding following (d # r)
      else if d = CHR ''$'' then CHR ''$'' # getSubstitution matched preceding following r
      else if d = CHR ''&'' then matched @ getSubstitution matched preceding following r
      else if d = CHR 0x60 then preceding @ getSubstitution matched preceding following r
      else if d = CHR 0x27 then following @ getSubstitution matched preceding following r
      else c # getSubstitution matched preceding following (d # r))"

lemma stripPrefix_length: "stripPrefix pre s = Some r \<Longrightarrow> length r + length pre = length s"
  by (induction pre s rule: stripPrefix.induct) (auto split: if_splits)

lemma matchUtilsImport_shorter:
  assumes "matchUtilsImport s = Some (matched, rest)"
  shows "length rest < length s"
proof -
  from assms obtain r1 q1 r2 q2 where
    r1: "stripPrefix ''from'' s = Some r1" and
    r2: "dropWhile isWhiteSpace r1 = q1 # r2" and
    r3: "stripPrefix ''../../lib/utils'' r2 = Some (q2 # rest)"
    by (auto simp: matchUtilsImport_def split: option.splits if_splits list.splits)
  have "length (dropWhile isWhiteSpace r1) \<le> length r1"
    by (rule length_dropWhile_le)
  with stripPrefix_length[OF r1] stripPrefix_length[OF r3] r2 show ?thesis
    by simp
qed

text \<open>
  The global replace: the subject is scanned from left to right, \<open>preceding\<close> being the
  part of the subject already passed; the scan goes on after each match.
\<close>

function replaceAll :: "string \<Rightarrow> string \<Rightarrow> string \<Rightarrow> string" where
  "replaceAll replacement preceding [] = []"
| "replaceAll replacement preceding (c # cs) =
     (case matchUtilsImport (c # cs) of
        Some (matched, rest) \<Rightarrow>
          getSubstitution matched preceding rest replacement @
          replaceAll replacement (preceding @ matched) rest
      | None \<Rightarrow> c # replaceAll replacement (preceding @ [c]) cs)"
  by pat_completeness auto
termination
  by (relation "measure (\<lambda>(replacement, preceding, s). length s)")
     (auto dest: matchUtilsImport_shorter)

definition transformContent :: "string \<Rightarrow> string \<Rightarrow> string" where
  "transformContent utilsImportPath content =
     replaceAll (''from '' @ CHR 0x22 # utilsImportPath @ [CHR 0x22]) [] content"

text \<open>\<open>s.split(sep)\<close> for a one-character separator, and \<open>parts.join("/")\<close>.\<close>

fun split :: "char \<Rightarrow> string \<Rightarrow> string list" where
  "split sep [] = [[]]"
| "split sep (c # cs) =
     (if c = sep then [] # split sep cs
      else (case split sep cs of p # ps \<Rightarrow> (c # p) # ps | [] \<Rightarrow> [[c]]))"

fun join :: "string list \<Rightarrow> string" where
  "join [] = []"
| "join [p] = p"
| "join (p # q # ps) = p @ ''/'' @ join (q # ps)"

definition getUtilsImportPath :: "string \<Rightarrow> string \<Rightarrow> string \<Rightarrow> string" where
  "getUtilsImportPath ptype componentsPath utilsPath =
     (if ptype = ''cra''
      then (let componentsDepth = length (split CHR ''/'' componentsPath);
                utilsPathParts = split CHR ''/'' utilsPath;
                upPath = concat (replicate (componentsDepth - 1) ''../'')
            in upPath @ join (tl utilsPathParts) @ ''/utils'')
      else (case stripPrefix ''src/'' utilsPath of
              Some r \<Rightarrow> ''@/'' @ r
            | None \<Rightarrow> utilsPath) @ ''/utils'')"

section \<open>Files, console output and the outcome of a command\<close>

text \<open>
  What the commands read and never change: the template files of the package by file
  name, the project type that \<open>detectProjectType\<close> reports, and \<open>Diff.diffLines\<close> of the
  library \<open>diff\<close>, which is not part of this repository.
\<close>

record Change =
  added :: bool
  removed :: bool
  chunk :: string

record Env =
  templates :: "string \<rightharpoonup> string"
  projectType :: string
  diffLines :: "string \<Rightarrow> string \<Rightarrow> Change list"

definition fileExists :: "Project \<Rightarrow> string \<Rightarrow> bool" where
  "fileExists p file = (componentFiles p file \<noteq> None)"

definition writeFile :: "string \<Rightarrow> string \<Rightarrow> Project \<Rightarrow> js_error + Project" where
  "writeFile file content p =
     (if file \<in> unwritable p then Inl IOError
      else Inr (p\<lparr>componentFiles := (componentFiles p)(file \<mapsto> content)\<rparr>))"

definition deleteFile :: "string \<Rightarrow> Project \<Rightarrow> Project" where
  "deleteFile file p =
     (if fileExists p file then p\<lparr>componentFiles := (componentFiles p)(file := None)\<rparr> else p)"

text \<open>
  \<open>path.join(dir, componentDef.files[0])\<close>: for an empty file list the second argument
  is \<open>undefined\<close>, which \<open>path.join\<close> rejects with a \<open>TypeError\<close>.
\<close>

definition firstFile :: "ComponentDefinition \<Rightarrow> js_error + string" where
  "firstFile def = (case files def of [] \<Rightarrow> Inl TypeError | file # _ \<Rightarrow> Inr file)"

text \<open>
  \<open>registry[key].name\<close>, read by the commands only for keys they have found to be
  components of the registry.
\<close>

definition displayName :: "Registry \<Rightarrow> string \<Rightarrow> string" where
  "displayName reg key =
     (case registry_get reg key of Some (Component def) \<Rightarrow> name def | _ \<Rightarrow> ''undefined'')"

text \<open>
  What a command prints, one constructor for each message of the source that says what
  the command found or did, with the names it lists; headings, hints on usage and blank
  lines are left out.
\<close>

datatype Message =
    NotInitialized
  | FailedToReadConfig
  | FailedToCopy string js_error
  | ComponentsAdded nat
  | UnknownComponents "string list"
  | NoValidComponents
  | NoneInstalled
  | DependentsWarning "string list"
  | WillBeRemoved "string list"
  | RemovalCancelled
  | Removed nat
  | NoComponentsToUpdate
  | AllUpToDate
  | UpdatesAvailable "string list"
  | UpdateCancelled
  | Updated nat
  | UnknownComponent string
  | NotInstalled string
  | NoComponentsInstalled
  | StatusMissing string
  | StatusUpToDate string
  | StatusModified string nat nat
  | StatusErrorReading string
  | DetailsHint
  | IsUpToDate string
  | DiffFor string "string list"
  | ErrorReadingFiles

text \<open>
  How a command ends: it returns, it calls \<open>process.exit\<close>, or an error leaves it
  uncaught.
\<close>

datatype Status = Completed | Exited nat | Threw js_error

section \<open>The copy phase of \<open>add\<close>\<close>

text \<open>
  The body of the \<open>try\<close> block for one file of the component \<open>nm\<close>: an error with the
  state it leaves, or the new state. \<open>add\<close> computes the import path by the expression
  that \<open>getUtilsImportPath\<close> holds in \<open>update\<close> and \<open>diff\<close>.
\<close>

definition copyComponentFile ::
  "Env \<Rightarrow> DiamantConfig \<Rightarrow> string \<Rightarrow> string \<Rightarrow> Project \<Rightarrow> js_error option \<times> Project" where
  "copyComponentFile env cfg nm file p =
     (case templates env file of
        None \<Rightarrow> (Some IOError, p)
      | Some content \<Rightarrow>
          (case writeFile file
                  (transformContent
                     (getUtilsImportPath (projectType env) (components (aliases cfg))
                        (utils (aliases cfg)))
                     content) p of
             Inl e \<Rightarrow> (Some e, p)
           | Inr p' \<Rightarrow>
               (case addInstalledComponent nm p' of
                  Inl e \<Rightarrow> (Some e, p')
                | Inr p'' \<Rightarrow> (None, p''))))"

text \<open>
  The loop over the files of one component; the \<open>catch\<close> block reports the file and
  exits with status 1.
\<close>

fun copyComponentFiles ::
  "Env \<Rightarrow> DiamantConfig \<Rightarrow> string \<Rightarrow> string list \<Rightarrow> Project \<Rightarrow> Status \<times> Project \<times> Message list"
where
  "copyComponentFiles env cfg nm [] p = (Completed, p, [])"
| "copyComponentFiles env cfg nm (file # rest) p =
     (case copyComponentFile env cfg nm file p of
        (Some e, p') \<Rightarrow> (Exited 1, p', [FailedToCopy file e])
      | (None, p') \<Rightarrow> copyComponentFiles env cfg nm rest p')"

text \<open>
  The loop over \<open>componentsToAdd\<close> (lines 154 to 197 of \<open>add.ts\<close>). What comes before
  it in \<open>add\<close> chooses the components and leaves the project as it is.
\<close>

fun addCopy ::
  "Registry \<Rightarrow> Env \<Rightarrow> DiamantConfig \<Rightarrow> string list \<Rightarrow> nat \<Rightarrow> Project \<Rightarrow>
   Status \<times> Project \<times> Message list" where
  "addCopy reg env cfg [] n p = (Completed, p, [ComponentsAdded n])"
| "addCopy reg env cfg (nm # rest) n p =
     (case registry_get reg nm of
        None \<Rightarrow> addCopy reg env cfg rest n p
      | Some Inherited \<Rightarrow> (Threw TypeError, p, [])
      | Some (Component def) \<Rightarrow>
          (case copyComponentFiles env cfg nm (files def) p of
             (Completed, p', out) \<Rightarrow> addCopy reg env cfg rest n p'
           | (Exited code, p', out) \<Rightarrow> (Exited code, p', out)
           | (Threw e, p', out) \<Rightarrow> (Threw e, p', out)))"

definition addComponents ::
  "Registry \<Rightarrow> Env \<Rightarrow> DiamantConfig \<Rightarrow> string list \<Rightarrow> Project \<Rightarrow>
   Status \<times> Project \<times> Message list" where
  "addComponents reg env cfg componentsToAdd p =
     addCopy reg env cfg componentsToAdd (length componentsToAdd) p"

section \<open>The command \<open>remove\<close>\<close>

text \<open>
  The first loop sorts the requested names: the normalized names the registry has a
  property for, and the names, as typed, that it has none for.
\<close>

definition validComponents :: "Registry \<Rightarrow> string list \<Rightarrow> string list" where
  "validComponents reg comps =
     map toLowerCase (filter (\<lambda>nm. registry_get reg (toLowerCase nm) \<noteq> None) comps)"

definition invalidComponents :: "Registry \<Rightarrow> string list \<Rightarrow> string list" where
  "invalidComponents reg comps =
     filter (\<lambda>nm. registry_get reg (toLowerCase nm) = None) comps"

text \<open>
  The second loop keeps the valid names whose first file is on disk (the array the source
  calls \<open>installedComponents\<close>). Reading \<open>files[0]\<close> of an inherited property throws.
\<close>

fun onDisk :: "Registry \<Rightarrow> Project \<Rightarrow> string list \<Rightarrow> js_error + string list" where
  "onDisk reg p [] = Inr []"
| "onDisk reg p (nm # rest) =
     (case registry_get reg nm of
        Some (Component def) \<Rightarrow>
          (case firstFile def of
             Inl e \<Rightarrow> Inl e
           | Inr file \<Rightarrow>
               (case onDisk reg p rest of
                  Inl e \<Rightarrow> Inl e
                | Inr found \<Rightarrow> Inr (if fileExists p file then nm # found else found)))
      | _ \<Rightarrow> Inl TypeError)"

text \<open>
  The scan for dependents: for each name to be removed, in order, every entry of the
  registry that depends on it, is in the manifest and is not itself to be removed.
\<close>

definition dependentComponents :: "Registry \<Rightarrow> string list \<Rightarrow> string list \<Rightarrow> string list" where
  "dependentComponents reg allInstalled toRemove =
     concat (map (\<lambda>nm. map fst (filter (\<lambda>(otherName, otherDef).
                                  nm \<in> set (internalDependencies otherDef) \<and>
                                  otherName \<in> set allInstalled \<and>
                                  otherName \<notin> set toRemove) reg)) toRemove)"

fun deleteFiles :: "string list \<Rightarrow> Project \<Rightarrow> Project" where
  "deleteFiles [] p = p"
| "deleteFiles (file # rest) p = deleteFiles rest (deleteFile file p)"

text \<open>The last loop: delete every file of the component, then take it off the manifest.\<close>

fun removeLoop :: "Registry \<Rightarrow> string list \<Rightarrow> Project \<Rightarrow> js_error option \<times> Project" where
  "removeLoop reg [] p = (None, p)"
| "removeLoop reg (nm # rest) p =
     (case registry_get reg nm of
        Some (Component def) \<Rightarrow>
          (case removeInstalledComponent nm (deleteFiles (files def) p) of
             Inl e \<Rightarrow> (Some e, deleteFiles (files def) p)
           | Inr p' \<Rightarrow> removeLoop reg rest p')
      | _ \<Rightarrow> (Some TypeError, p))"

text \<open>
  \<open>remove(components, options)\<close>: \<open>yes\<close> is \<open>options.yes\<close> and \<open>confirmed\<close> the answer
  to the prompt, which is asked only without \<open>yes\<close>.
\<close>

definition remove ::
  "Registry \<Rightarrow> string list \<Rightarrow> bool \<Rightarrow> bool \<Rightarrow> Project \<Rightarrow> Status \<times> Project \<times> Message list" where
  "remove reg comps yes confirmed p =
     (if \<not> configExists p then (Exited 1, p, [NotInitialized])
      else case readConfig p of
        None \<Rightarrow> (Exited 1, p, [FailedToReadConfig])
      | Some cfg \<Rightarrow>
          let unknown = (if invalidComponents reg comps \<noteq> []
                         then [UnknownComponents (invalidComponents reg comps)] else [])
          in if validComponents reg comps = [] then (Completed, p, unknown @ [NoValidComponents])
             else case onDisk reg p (validComponents reg comps) of
               Inl e \<Rightarrow> (Threw e, p, unknown)
             | Inr toRemove \<Rightarrow>
                 if toRemove = [] then (Completed, p, unknown @ [NoneInstalled])
                 else
                   let dependents = dependentComponents reg (installedComponents cfg) toRemove;
                       warning = (if dependents \<noteq> []
                                  then [DependentsWarning (map (displayName reg) dependents)]
                                  else []);
                       listing = (if \<not> yes
                                  then [WillBeRemoved (map (displayName reg) toRemove)] else [])
                   in if \<not> yes \<and> \<not> confirmed
                      then (Completed, p, unknown @ warning @ listing @ [RemovalCancelled])
                      else case removeLoop reg toRemove p of
                        (Some e, p') \<Rightarrow> (Threw e, p', unknown @ warning @ listing)
                      | (None, p') \<Rightarrow>
                          (Completed, p',
                           unknown @ warning @ listing @ [Removed (length toRemove)]))"

section \<open>The command \<open>update\<close>\<close>

text \<open>
  The checking loop: a name the registry does not know is skipped, and so is a component
  whose first file is not on disk; a failing read is caught and the component skipped.
\<close>

fun updateCheck ::
  "Registry \<Rightarrow> Env \<Rightarrow> string \<Rightarrow> Project \<Rightarrow> string list \<Rightarrow> js_error + (string \<times> bool) list"
where
  "updateCheck reg env utilsImportPath p [] = Inr []"
| "updateCheck reg env utilsImportPath p (nm # rest) =
     (case registry_get reg (toLowerCase nm) of
        None \<Rightarrow> updateCheck reg env utilsImportPath p rest
      | Some Inherited \<Rightarrow> Inl TypeError
      | Some (Component def) \<Rightarrow>
          (case firstFile def of
             Inl e \<Rightarrow> Inl e
           | Inr file \<Rightarrow>
               (case componentFiles p file of
                  None \<Rightarrow> updateCheck reg env utilsImportPath p rest
                | Some localContent \<Rightarrow>
                    (case templates env file of
                       None \<Rightarrow> updateCheck reg env utilsImportPath p rest
                     | Some sourceContent \<Rightarrow>
                         (case updateCheck reg env utilsImportPath p rest of
                            Inl e \<Rightarrow> Inl e
                          | Inr checked \<Rightarrow>
                              Inr ((toLowerCase nm,
                                    trim localContent \<noteq>
                                    trim (transformContent utilsImportPath sourceContent))
                                   # checked))))))"

fun overwriteFiles :: "Env \<Rightarrow> string \<Rightarrow> string list \<Rightarrow> Project \<Rightarrow> js_error option \<times> Project" where
  "overwriteFiles env utilsImportPath [] p = (None, p)"
| "overwriteFiles env utilsImportPath (file # rest) p =
     (case templates env file of
        None \<Rightarrow> (Some IOError, p)
      | Some content \<Rightarrow>
          (case writeFile file (transformContent utilsImportPath content) p of
             Inl e \<Rightarrow> (Some e, p)
           | Inr p' \<Rightarrow> overwriteFiles env utilsImportPath rest p'))"

fun updateLoop ::
  "Registry \<Rightarrow> Env \<Rightarrow> string \<Rightarrow> string list \<Rightarrow> Project \<Rightarrow> js_error option \<times> Project" where
  "updateLoop reg env utilsImportPath [] p = (None, p)"
| "updateLoop reg env utilsImportPath (nm # rest) p =
     (case registry_get reg nm of
        Some (Component def) \<Rightarrow>
          (case overwriteFiles env utilsImportPath (files def) p of
             (Some e, p') \<Rightarrow> (Some e, p')
           | (None, p') \<Rightarrow> updateLoop reg env utilsImportPath rest p')
      | _ \<Rightarrow> (Some TypeError, p))"

definition update ::
  "Registry \<Rightarrow> Env \<Rightarrow> string list \<Rightarrow> bool \<Rightarrow> bool \<Rightarrow> Project \<Rightarrow>
   Status \<times> Project \<times> Message list" where
  "update reg env comps yes confirmed p =
     (if \<not> configExists p then (Exited 1, p, [NotInitialized])
      else case readConfig p of
        None \<Rightarrow> (Exited 1, p, [FailedToReadConfig])
      | Some cfg \<Rightarrow>
          let requested = (if comps = [] then installedComponents cfg else comps);
              utilsImportPath = getUtilsImportPath (projectType env)
                                  (components (aliases cfg)) (utils (aliases cfg))
          in if requested = [] then (Completed, p, [NoComponentsToUpdate])
             else case updateCheck reg env utilsImportPath p requested of
               Inl e \<Rightarrow> (Threw e, p, [])
             | Inr componentsToUpdate \<Rightarrow>
                 let updateable = map fst (filter snd componentsToUpdate);
                     available = UpdatesAvailable (map (displayName reg) updateable)
                 in if updateable = [] then (Completed, p, [AllUpToDate])
                    else if \<not> yes \<and> \<not> confirmed
                    then (Completed, p, [available, UpdateCancelled])
                    else case updateLoop reg env utilsImportPath updateable p of
                      (Some e, p') \<Rightarrow> (Threw e, p', [available])
                    | (None, p') \<Rightarrow>
                        (Completed, p', [available, Updated (length updateable)]))"

section \<open>The command \<open>diff\<close>\<close>

text \<open>
  The status line of one installed component in the summary, and whether it counts as
  modified. The names come from the manifest as they are, without normalization.
\<close>

definition diffStatus :: "Env \<Rightarrow> string \<Rightarrow> Project \<Rightarrow> ComponentDefinition \<Rightarrow> string \<Rightarrow> Message \<times> bool"
where
  "diffStatus env utilsImportPath p def file =
     (case componentFiles p file of
        None \<Rightarrow> (StatusMissing (name def), False)
      | Some localContent \<Rightarrow>
          (case templates env file of
             None \<Rightarrow> (StatusErrorReading (name def), False)
           | Some content \<Rightarrow>
               let sourceContent = transformContent utilsImportPath content
               in if trim localContent = trim sourceContent
                  then (StatusUpToDate (name def), False)
                  else (StatusModified (name def)
                          (length (filter added (diffLines env sourceContent localContent)))
                          (length (filter removed (diffLines env sourceContent localContent))),
                        True)))"

fun diffSummary ::
  "Registry \<Rightarrow> Env \<Rightarrow> string \<Rightarrow> Project \<Rightarrow> string list \<Rightarrow> js_error option \<times> Message list \<times> bool"
where
  "diffSummary reg env utilsImportPath p [] = (None, [], False)"
| "diffSummary reg env utilsImportPath p (nm # rest) =
     (case registry_get reg nm of
        None \<Rightarrow> diffSummary reg env utilsImportPath p rest
      | Some Inherited \<Rightarrow> (Some TypeError, [], False)
      | Some (Component def) \<Rightarrow>
          (case firstFile def of
             Inl e \<Rightarrow> (Some e, [], False)
           | Inr file \<Rightarrow>
               (case diffSummary reg env utilsImportPath p rest of
                  (e, out, hasModified) \<Rightarrow>
                    (e, fst (diffStatus env utilsImportPath p def file) # out,
                     snd (diffStatus env utilsImportPath p def file) \<or> hasModified))))"

text \<open>
  \<open>showDiff\<close>: the added and the removed parts of the line diff, each non-empty line of
  a part printed with its sign.
\<close>

definition diffLine :: "Change \<Rightarrow> string list" where
  "diffLine part =
     (if added part then map (\<lambda>l. ''+ '' @ l) (filter (\<lambda>l. l \<noteq> []) (split CHR 0x0A (chunk part)))
      else if removed part
      then map (\<lambda>l. ''- '' @ l) (filter (\<lambda>l. l \<noteq> []) (split CHR 0x0A (chunk part)))
      else [])"

definition showDiff :: "Env \<Rightarrow> string \<Rightarrow> Project \<Rightarrow> ComponentDefinition \<Rightarrow> string \<Rightarrow> Message list"
where
  "showDiff env utilsImportPath p def file =
     (case componentFiles p file of
        None \<Rightarrow> [ErrorReadingFiles]
      | Some localContent \<Rightarrow>
          (case templates env file of
             None \<Rightarrow> [ErrorReadingFiles]
           | Some content \<Rightarrow>
               let sourceContent = transformContent utilsImportPath content
               in if trim localContent = trim sourceContent then [IsUpToDate (name def)]
                  else [DiffFor (name def)
                          (concat (map diffLine (diffLines env sourceContent localContent)))]))"

text \<open>The report on one component, named by the argument of the command.\<close>

definition diffComponent :: "Registry \<Rightarrow> Env \<Rightarrow> string \<Rightarrow> Project \<Rightarrow> string \<Rightarrow> Status \<times> Message list"
where
  "diffComponent reg env utilsImportPath p arg =
     (case registry_get reg (toLowerCase arg) of
        None \<Rightarrow> (Completed, [UnknownComponent arg])
      | Some Inherited \<Rightarrow> (Threw TypeError, [])
      | Some (Component def) \<Rightarrow>
          (case firstFile def of
             Inl e \<Rightarrow> (Threw e, [])
           | Inr file \<Rightarrow>
               if \<not> fileExists p file then (Completed, [NotInstalled (name def)])
               else (Completed, showDiff env utilsImportPath p def file)))"

text \<open>The summary over the components that the manifest lists.\<close>

definition diffInstalled ::
  "Registry \<Rightarrow> Env \<Rightarrow> string \<Rightarrow> Project \<Rightarrow> string list \<Rightarrow> Status \<times> Message list" where
  "diffInstalled reg env utilsImportPath p installed =
     (if installed = [] then (Completed, [NoComponentsInstalled])
      else (case diffSummary reg env utilsImportPath p installed of
              (Some e, out, hasModified) \<Rightarrow> (Threw e, out)
            | (None, out, hasModified) \<Rightarrow>
                (Completed, out @ (if hasModified then [DetailsHint] else []))))"

text \<open>
  \<open>diff(component)\<close>: with a non-empty name the report on that component, else the
  summary. The command leaves the project as it is.
\<close>

definition diff :: "Registry \<Rightarrow> Env \<Rightarrow> string option \<Rightarrow> Project \<Rightarrow> Status \<times> Message list" where
  "diff reg env arg p =
     (if \<not> configExists p then (Exited 1, [NotInitialized])
      else case readConfig p of
        None \<Rightarrow> (Exited 1, [FailedToReadConfig])
      | Some cfg \<Rightarrow>
          let utilsImportPath = getUtilsImportPath (projectType env)
                                  (components (aliases cfg)) (utils (aliases cfg))
          in (case arg of
                None \<Rightarrow> diffInstalled reg env utilsImportPath p (installedComponents cfg)
              | Some c \<Rightarrow>
                  if c \<noteq> [] then diffComponent reg env utilsImportPath p c
                  else diffInstalled reg env utilsImportPath p (installedComponents cfg)))"

section \<open>Example registries and projects\<close>

text \<open>
  A registry whose dependency graph is a cycle, and one with a component of two files;
  the shipped registry has neither.
\<close>

definition cyclicRegistry :: Registry where
  "cyclicRegistry =
     [(''ping'', component ''Ping'' ''Needs pong'' [] [''pong''] [''Ping.tsx'']),
      (''pong'', component ''Pong'' ''Needs ping'' [] [''ping''] [''Pong.tsx''])]"

definition twoFileRegistry :: Registry where
  "twoFileRegistry =
     [(''widget'', component ''Widget'' ''A component of two files'' [] []
         [''Widget.tsx'', ''WidgetItem.tsx''])]"

text \<open>\<open>DEFAULT_CONFIG\<close> of \<open>config.ts\<close>, which \<open>init\<close> writes.\<close>

definition defaultConfig :: DiamantConfig where
  "defaultConfig =
     \<lparr>schema = None, typescript = True,
      tailwind = \<lparr>config = ''tailwind.config.js'', css = ''src/app/globals.css''\<rparr>,
      aliases = \<lparr>components = ''src/components/ui'', utils = ''src/lib''\<rparr>,
      installedComponents = []\<rparr>"

text \<open>
  A project with the default configuration, the given components in its manifest and the
  given files in its components directory, all of them writable.
\<close>

definition projectWith :: "string list \<Rightarrow> (string \<times> string) list \<Rightarrow> Project" where
  "projectWith installed present =
     \<lparr>manifestFile = Document (defaultConfig\<lparr>installedComponents := installed\<rparr>),
      manifestReadOnly = False,
      componentFiles = map_of present,
      unwritable = {},
      manifestWrites = []\<rparr>"

text \<open>
  A template that imports the utilities the way the shipped templates do, and the same
  text with the import rewritten for the default configuration.
\<close>

definition templateText :: string where
  "templateText =
     ''import { cn } from '' @ [CHR 0x22] @ ''../../lib/utils'' @ [CHR 0x22] @ '';'' @ [CHR 0x0A]"

definition installedText :: string where
  "installedText =
     ''import { cn } from '' @ [CHR 0x22] @ ''@/lib/utils'' @ [CHR 0x22] @ '';'' @ [CHR 0x0A]"

definition envWith :: "(string \<times> string) list \<Rightarrow> Env" where
  "envWith sources =
     \<lparr>templates = map_of sources, projectType = ''nextjs'', diffLines = (\<lambda>old new. [])\<rparr>"

text \<open>
  The project after the first of the two files of \<open>widget\<close> has been copied with the
  default configuration.
\<close>

definition widgetInstalled :: Project where
  "widgetInstalled =
     (projectWith [] [(''Widget.tsx'', installedText)])
       \<lparr>manifestFile := Document (defaultConfig\<lparr>installedComponents := [''widget'']\<rparr>),
        manifestWrites := [defaultConfig\<lparr>installedComponents := [''widget'']\<rparr>]\<rparr>"

text \<open>Projects with \<open>button\<close>, or \<open>button\<close> and \<open>carousel\<close>, in the manifest and on disk.\<close>

definition buttonInstalled :: Project where
  "buttonInstalled = projectWith [''button''] [(''Button.tsx'', installedText)]"

definition buttonAndCarousel :: Project where
  "buttonAndCarousel =
     projectWith [''button'', ''carousel'']
       [(''Button.tsx'', installedText), (''Carousel.tsx'', installedText)]"

text \<open>A project whose manifest lists \<open>button\<close> while its file is not on disk.\<close>

definition buttonListedOnly :: Project where
  "buttonListedOnly = projectWith [''button''] []"

section \<open>Notions used in the statements\<close>

text \<open>
  Whether the first file of the component under a key is on disk, and the files of the
  component under a key.
\<close>

definition isOnDisk :: "Registry \<Rightarrow> Project \<Rightarrow> string \<Rightarrow> bool" where
  "isOnDisk reg p key =
     (case registry_get reg key of
        Some (Component def) \<Rightarrow>
          (case firstFile def of Inr file \<Rightarrow> fileExists p file | Inl e \<Rightarrow> False)
      | _ \<Rightarrow> False)"

definition filesOf :: "Registry \<Rightarrow> string \<Rightarrow> string list" where
  "filesOf reg key = (case registry_get reg key of Some (Component def) \<Rightarrow> files def | _ \<Rightarrow> [])"

text \<open>
  A name that is not shadowed by \<open>Object.prototype\<close>: in lower case it is a key of
  the registry itself or no property at all. A registry is closed when the internal
  dependencies of its components are such names.
\<close>

definition ownOrUnknown :: "Registry \<Rightarrow> string \<Rightarrow> bool" where
  "ownOrUnknown reg nm = (registry_get reg (toLowerCase nm) \<noteq> Some Inherited)"

definition closedRegistry :: "Registry \<Rightarrow> bool" where
  "closedRegistry reg =
     list_all (\<lambda>(key, def). list_all (ownOrUnknown reg) (internalDependencies def)) reg"

section \<open>Evaluation and basic facts\<close>

lemmas lower_simps = toLowerCase_def toLowerCase_char_def upperToLower_def

lemmas registry_simps = registry_get_def registry_def component_def objectPrototypeKeys_def

lemma registry_get_own: "map_of reg k = Some d \<Longrightarrow> registry_get reg k = Some (Component d)"
  by (simp add: registry_get_def)

lemma registry_get_Component_key:
  "registry_get reg k = Some (Component d) \<Longrightarrow> k \<in> fst ` set reg"
  by (auto simp: registry_get_def split: option.splits if_splits
           dest: map_of_SomeD intro: rev_image_eqI)

section \<open>The resolver returns\<close>

text \<open>
  The loop is bounded by the pair of the number of registry keys not yet resolved and the
  length of the stack, in lexicographic order: a pass either resolves a key of the
  registry, or leaves the resolved set alone and pops the stack.
\<close>

definition resolveMeasure :: "Registry \<Rightarrow> ResolveState \<Rightarrow> nat \<times> nat" where
  "resolveMeasure reg s = (card (fst ` set reg - set (resolved s)), length (toProcess s))"

lemma card_unresolved_decreases:
  assumes "k \<in> fst ` set reg" and "k \<notin> set rs"
  shows "card (fst ` set reg - set (rs @ [k])) < card (fst ` set reg - set rs)"
proof -
  have "fst ` set reg - set (rs @ [k]) \<subset> fst ` set reg - set rs"
    using assms by auto
  then show ?thesis
    by (intro psubset_card_mono) auto
qed

lemma resolveStep_decreases:
  assumes "toProcess s \<noteq> []" and "resolveStep reg s = Inr s'"
  shows "(resolveMeasure reg s', resolveMeasure reg s) \<in> less_than <*lex*> less_than"
proof (cases "toLowerCase (last (toProcess s)) \<in> set (resolved s)")
  case True
  with assms show ?thesis
    by (auto simp: resolveStep_def resolveMeasure_def Let_def)
next
  case False
  show ?thesis
  proof (cases "registry_get reg (toLowerCase (last (toProcess s)))")
    case None
    with False assms show ?thesis
      by (auto simp: resolveStep_def resolveMeasure_def Let_def)
  next
    case (Some entry)
    show ?thesis
    proof (cases entry)
      case (Component d)
      with Some have "toLowerCase (last (toProcess s)) \<in> fst ` set reg"
        by (simp add: registry_get_Component_key)
      from card_unresolved_decreases[OF this False] Component Some False assms
      show ?thesis
        by (auto simp: resolveStep_def resolveMeasure_def Let_def)
    next
      case Inherited
      with Some False assms show ?thesis
        by (simp add: resolveStep_def Let_def)
    qed
  qed
qed

lemma resolveLoop_done:
  "toProcess s = [] \<Longrightarrow> resolveLoop reg s = Some (Inr (resolved s, warnings s))"
  by (subst resolveLoop.simps) simp

lemma resolveLoop_step:
  "toProcess s \<noteq> [] \<Longrightarrow> resolveStep reg s = Inr s' \<Longrightarrow> resolveLoop reg s = resolveLoop reg s'"
  by (subst resolveLoop.simps) simp

lemma resolveLoop_throw:
  "toProcess s \<noteq> [] \<Longrightarrow> resolveStep reg s = Inl e \<Longrightarrow> resolveLoop reg s = Some (Inl e)"
  by (subst resolveLoop.simps) simp

lemma resolveLoop_returns: "\<exists>r. resolveLoop reg s = Some r"
proof (induction "resolveMeasure reg s" arbitrary: s
    rule: wf_induct_rule[OF wf_lex_prod[OF wf_less_than wf_less_than]])
  case 1
  show ?case
  proof (cases "toProcess s = []")
    case True
    then show ?thesis by (simp add: resolveLoop_done)
  next
    case False
    show ?thesis
    proof (cases "resolveStep reg s")
      case (Inl e)
      with False show ?thesis by (simp add: resolveLoop_throw)
    next
      case (Inr s')
      from 1[OF resolveStep_decreases[OF False Inr]]
      obtain r where "resolveLoop reg s' = Some r" by blast
      with False Inr show ?thesis by (simp add: resolveLoop_step)
    qed
  qed
qed

text \<open>
  C5. \<open>resolveComponentDependencies\<close> ends for every list of names over every
  registry, whatever its dependency graph: the loop never runs forever, with or without
  a cycle among the internal dependencies. (It ends with the resolved names, or with the
  error thrown at an inherited key.)
\<close>

theorem resolveComponentDependencies_terminates:
  "\<exists>r. resolveComponentDependencies reg componentNames = Some r"
  unfolding resolveComponentDependencies_def by (rule resolveLoop_returns)

text \<open>On the registry whose two components depend on each other, the loop returns both.\<close>

lemma resolve_cycle_value:
  "resolveComponentDependencies cyclicRegistry [''ping''] = Some (Inr ([''ping'', ''pong''], []))"
proof -
  let ?s0 = "\<lparr>resolved = [], toProcess = [''ping''], warnings = []\<rparr>"
  let ?s1 = "\<lparr>resolved = [''ping''], toProcess = [''pong''], warnings = []\<rparr>"
  let ?s2 = "\<lparr>resolved = [''ping'', ''pong''], toProcess = [], warnings = []\<rparr>"
  have step1: "resolveStep cyclicRegistry ?s0 = Inr ?s1"
    by (simp add: resolveStep_def lower_simps registry_get_def cyclicRegistry_def component_def)
  have step2: "resolveStep cyclicRegistry ?s1 = Inr ?s2"
    by (simp add: resolveStep_def lower_simps registry_get_def cyclicRegistry_def component_def)
  have "resolveLoop cyclicRegistry ?s0 = resolveLoop cyclicRegistry ?s1"
    by (rule resolveLoop_step[OF _ step1]) simp
  also have "\<dots> = resolveLoop cyclicRegistry ?s2"
    by (rule resolveLoop_step[OF _ step2]) simp
  also have "\<dots> = Some (Inr ([''ping'', ''pong''], []))"
    by (simp add: resolveLoop_done)
  finally show ?thesis
    by (simp add: resolveComponentDependencies_def)
qed

theorem resolve_cycle_witness:
  "\<exists>r. resolveComponentDependencies cyclicRegistry [''ping''] = Some r \<and>
       r = Inr ([''ping'', ''pong''], [])"
proof -
  from resolveComponentDependencies_terminates[of cyclicRegistry "[''ping'']"]
  obtain r where r: "resolveComponentDependencies cyclicRegistry [''ping''] = Some r" ..
  with resolve_cycle_value have "r = Inr ([''ping'', ''pong''], [])" by simp
  with r show ?thesis by blast
qed

section \<open>Dependency closure\<close>

lemma set_addAll: "set (addAll deps ds) = set deps \<union> set ds"
  by (induction ds arbitrary: deps) auto

lemma distinct_addAll: "distinct deps \<Longrightarrow> distinct (addAll deps ds)"
  by (induction ds arbitrary: deps) auto

text \<open>
  C1. Let \<open>a\<close> and \<open>b\<close> be keys of the registry, in lower case as registry keys are, for
  the components \<open>A\<close> and \<open>B\<close>, where \<open>A\<close> depends on exactly \<open>b\<close> and \<open>B\<close> on nothing.
  Then resolving \<open>[a]\<close> yields \<open>a\<close> and \<open>b\<close> (and no warning), and the package
  dependencies of the two are the union of those of \<open>A\<close> and of \<open>B\<close>, each listed once.
\<close>

theorem resolve_direct_dependency:
  assumes A: "map_of reg a = Some A" and depA: "internalDependencies A = [b]"
    and B: "map_of reg b = Some B" and depB: "internalDependencies B = []"
    and la: "toLowerCase a = a" and lb: "toLowerCase b = b"
  shows "resolveComponentDependencies reg [a] = Some (Inr ([a, b], [])) \<and>
         (\<exists>deps. getNpmDependencies reg [a, b] = Inr deps \<and>
                 set deps = set (dependencies A) \<union> set (dependencies B) \<and> distinct deps)"
proof -
  from A B depA depB have ab: "a \<noteq> b" by auto
  let ?s0 = "\<lparr>resolved = [], toProcess = [a], warnings = []\<rparr>"
  let ?s1 = "\<lparr>resolved = [a], toProcess = [b], warnings = []\<rparr>"
  let ?s2 = "\<lparr>resolved = [a, b], toProcess = [], warnings = []\<rparr>"
  have step1: "resolveStep reg ?s0 = Inr ?s1"
    using registry_get_own[OF A] depA la ab by (simp add: resolveStep_def)
  have step2: "resolveStep reg ?s1 = Inr ?s2"
    using registry_get_own[OF B] depB lb ab by (simp add: resolveStep_def)
  have "resolveLoop reg ?s0 = resolveLoop reg ?s1"
    by (rule resolveLoop_step[OF _ step1]) simp
  also have "\<dots> = resolveLoop reg ?s2"
    by (rule resolveLoop_step[OF _ step2]) simp
  also have "\<dots> = Some (Inr ([a, b], []))"
    by (simp add: resolveLoop_done)
  finally have res: "resolveComponentDependencies reg [a] = Some (Inr ([a, b], []))"
    by (simp add: resolveComponentDependencies_def)
  have npm: "getNpmDependencies reg [a, b] =
             Inr (addAll (addAll [] (dependencies A)) (dependencies B))"
    using registry_get_own[OF A] registry_get_own[OF B] la lb
    by (simp add: getNpmDependencies_def)
  have "set (addAll (addAll [] (dependencies A)) (dependencies B)) =
        set (dependencies A) \<union> set (dependencies B)"
    by (simp add: set_addAll)
  moreover have "distinct (addAll (addAll [] (dependencies A)) (dependencies B))"
    by (simp add: distinct_addAll)
  ultimately show ?thesis using res npm by blast
qed

text \<open>The instance of the shipped registry: \<open>carousel\<close> depends on \<open>button\<close>.\<close>

theorem resolve_carousel_witness:
  "map_of registry ''carousel'' =
     Some (component ''Carousel'' ''A slideshow component for cycling through elements''
             [''lucide-react''] [''button''] [''Carousel.tsx'']) \<and>
   map_of registry ''button'' =
     Some (component ''Button'' ''A clickable button with multiple variants and ripple effect''
             [] [] [''Button.tsx'']) \<and>
   resolveComponentDependencies registry [''carousel''] =
     Some (Inr ([''carousel'', ''button''], [])) \<and>
   getNpmDependencies registry [''carousel'', ''button''] = Inr [''lucide-react'']"
proof -
  let ?A = "component ''Carousel'' ''A slideshow component for cycling through elements''
             [''lucide-react''] [''button''] [''Carousel.tsx'']"
  let ?B = "component ''Button'' ''A clickable button with multiple variants and ripple effect''
             [] [] [''Button.tsx'']"
  have A: "map_of registry ''carousel'' = Some ?A" by (simp add: registry_def)
  have B: "map_of registry ''button'' = Some ?B" by (simp add: registry_def)
  have depA: "internalDependencies ?A = [''button'']" by (simp add: component_def)
  have depB: "internalDependencies ?B = []" by (simp add: component_def)
  have la: "toLowerCase ''carousel'' = ''carousel''" by (simp add: lower_simps)
  have lb: "toLowerCase ''button'' = ''button''" by (simp add: lower_simps)
  have npm: "getNpmDependencies registry [''carousel'', ''button''] = Inr [''lucide-react'']"
    using registry_get_own[OF A] registry_get_own[OF B] la lb
    by (simp add: getNpmDependencies_def component_def)
  from resolve_direct_dependency[OF A depA B depB la lb] A B npm show ?thesis
    by blast
qed

section \<open>Unknown names\<close>

text \<open>
  A name that the registry has no property for is reported and skipped, and the names
  after it on the stack are still processed.
\<close>

lemma resolve_unknown_example:
  "resolveComponentDependencies registry [''button'', ''not-a-real-component''] =
     Some (Inr ([''button''], [''Unknown component: not-a-real-component'']))"
proof -
  let ?s0 = "\<lparr>resolved = [], toProcess = [''button'', ''not-a-real-component''], warnings = []\<rparr>"
  let ?s1 = "\<lparr>resolved = [], toProcess = [''button''],
              warnings = [''Unknown component: not-a-real-component'']\<rparr>"
  let ?s2 = "\<lparr>resolved = [''button''], toProcess = [],
              warnings = [''Unknown component: not-a-real-component'']\<rparr>"
  have step1: "resolveStep registry ?s0 = Inr ?s1"
    by (simp add: resolveStep_def lower_simps registry_simps)
  have step2: "resolveStep registry ?s1 = Inr ?s2"
    by (simp add: resolveStep_def lower_simps registry_simps)
  have "resolveLoop registry ?s0 = resolveLoop registry ?s1"
    by (rule resolveLoop_step[OF _ step1]) simp
  also have "\<dots> = resolveLoop registry ?s2"
    by (rule resolveLoop_step[OF _ step2]) simp
  also have "\<dots> = Some (Inr ([''button''], [''Unknown component: not-a-real-component'']))"
    by (simp add: resolveLoop_done)
  finally show ?thesis
    by (simp add: resolveComponentDependencies_def)
qed

text \<open>
  On a closed registry, for names that are not shadowed, the loop does not throw, and
  every requested name that the registry knows is among the resolved names, whatever
  unknown names are requested with it.
\<close>

lemma registry_get_Component_entry:
  "registry_get reg k = Some (Component d) \<Longrightarrow> (k, d) \<in> set reg"
  by (auto simp: registry_get_def split: option.splits if_splits dest: map_of_SomeD)

lemma resolveStep_keeps_safe:
  assumes closed: "closedRegistry reg"
    and safe: "\<forall>nm \<in> set (toProcess s). ownOrUnknown reg nm"
    and ne: "toProcess s \<noteq> []"
  shows "\<exists>s'. resolveStep reg s = Inr s' \<and>
              (\<forall>nm \<in> set (toProcess s'). ownOrUnknown reg nm) \<and>
              set (resolved s) \<subseteq> set (resolved s') \<and>
              (\<forall>nm \<in> set (toProcess s).
                  registry_get reg (toLowerCase nm) \<noteq> None \<longrightarrow>
                  toLowerCase nm \<in> set (resolved s') \<or> nm \<in> set (toProcess s'))"
proof -
  let ?nm = "last (toProcess s)"
  from ne have top: "?nm \<in> set (toProcess s)" by simp
  with safe have ok: "registry_get reg (toLowerCase ?nm) \<noteq> Some Inherited"
    by (simp add: ownOrUnknown_def)
  from ne have split: "set (toProcess s) = insert ?nm (set (butlast (toProcess s)))"
    by (metis append_butlast_last_id list.simps(15) rotate1.simps(2) set_rotate1)
  have rest_safe: "\<forall>nm \<in> set (butlast (toProcess s)). ownOrUnknown reg nm"
    using safe by (meson in_set_butlastD)
  show ?thesis
  proof (cases "toLowerCase ?nm \<in> set (resolved s)")
    case True
    then show ?thesis
      using rest_safe split by (auto simp: resolveStep_def Let_def)
  next
    case False
    show ?thesis
    proof (cases "registry_get reg (toLowerCase ?nm)")
      case None
      with False show ?thesis
        using rest_safe split by (auto simp: resolveStep_def Let_def)
    next
      case (Some entry)
      with ok obtain d where d: "registry_get reg (toLowerCase ?nm) = Some (Component d)"
        by (cases entry) auto
      from registry_get_Component_entry[OF d] closed
      have deps: "\<forall>dep \<in> set (internalDependencies d). ownOrUnknown reg dep"
        by (auto simp: closedRegistry_def list_all_iff)
      from False d show ?thesis
        using rest_safe split deps by (auto simp: resolveStep_def Let_def)
    qed
  qed
qed

lemma resolveLoop_isolates_unknown:
  assumes closed: "closedRegistry reg"
  shows "(\<forall>nm \<in> set (toProcess s). ownOrUnknown reg nm) \<Longrightarrow>
         \<exists>r w. resolveLoop reg s = Some (Inr (r, w)) \<and> set (resolved s) \<subseteq> set r \<and>
               (\<forall>nm \<in> set (toProcess s).
                   registry_get reg (toLowerCase nm) \<noteq> None \<longrightarrow> toLowerCase nm \<in> set r)"
proof (induction "resolveMeasure reg s" arbitrary: s
    rule: wf_induct_rule[OF wf_lex_prod[OF wf_less_than wf_less_than]])
  case 1
  show ?case
  proof (cases "toProcess s = []")
    case True
    then show ?thesis by (simp add: resolveLoop_done)
  next
    case False
    from resolveStep_keeps_safe[OF closed "1.prems" False] obtain s' where
      step: "resolveStep reg s = Inr s'" and
      safe': "\<forall>nm \<in> set (toProcess s'). ownOrUnknown reg nm" and
      mono: "set (resolved s) \<subseteq> set (resolved s')" and
      kept: "\<forall>nm \<in> set (toProcess s).
               registry_get reg (toLowerCase nm) \<noteq> None \<longrightarrow>
               toLowerCase nm \<in> set (resolved s') \<or> nm \<in> set (toProcess s')"
      by blast
    from "1.hyps"[OF resolveStep_decreases[OF False step] safe'] obtain r w where
      run: "resolveLoop reg s' = Some (Inr (r, w))" and
      sub: "set (resolved s') \<subseteq> set r" and
      all: "\<forall>nm \<in> set (toProcess s').
               registry_get reg (toLowerCase nm) \<noteq> None \<longrightarrow> toLowerCase nm \<in> set r"
      by blast
    have "resolveLoop reg s = Some (Inr (r, w))"
      using resolveLoop_step[OF False step] run by simp
    moreover have "set (resolved s) \<subseteq> set r" using mono sub by blast
    moreover have "\<forall>nm \<in> set (toProcess s).
               registry_get reg (toLowerCase nm) \<noteq> None \<longrightarrow> toLowerCase nm \<in> set r"
      using kept sub all by blast
    ultimately show ?thesis by blast
  qed
qed

lemma resolve_isolates_unknown:
  assumes "closedRegistry reg" and "\<forall>nm \<in> set componentNames. ownOrUnknown reg nm"
  shows "\<exists>r w. resolveComponentDependencies reg componentNames = Some (Inr (r, w)) \<and>
               (\<forall>nm \<in> set componentNames.
                   registry_get reg (toLowerCase nm) \<noteq> None \<longrightarrow> toLowerCase nm \<in> set r)"
  using resolveLoop_isolates_unknown[OF assms(1),
      of "\<lparr>resolved = [], toProcess = componentNames, warnings = []\<rparr>"] assms(2)
  by (auto simp: resolveComponentDependencies_def)

lemma registry_closed: "closedRegistry registry"
  by (simp add: closedRegistry_def registry_def component_def ownOrUnknown_def lower_simps
        registry_get_def objectPrototypeKeys_def)

text \<open>
  C4, at the names \<open>button\<close> and \<open>constructor\<close>. The second is no component, yet
  \<open>registry["constructor"]\<close> reads the constructor that every object inherits, so the
  test for an unknown name does not fire; the loop over its \<open>internalDependencies\<close> then
  throws, no warning is printed and \<open>button\<close> is never reached.
\<close>

theorem resolve_inherited_key_throws:
  "resolveComponentDependencies registry [''button'', ''constructor''] = Some (Inl TypeError)"
proof -
  let ?s0 = "\<lparr>resolved = [], toProcess = [''button'', ''constructor''], warnings = []\<rparr>"
  have step: "resolveStep registry ?s0 = Inl TypeError"
    by (simp add: resolveStep_def lower_simps registry_simps)
  have "resolveLoop registry ?s0 = Some (Inl TypeError)"
    by (rule resolveLoop_throw[OF _ step]) simp
  then show ?thesis
    by (simp add: resolveComponentDependencies_def)
qed

section \<open>Idempotence of the manifest insertion\<close>

lemma count_list_distinct: "distinct xs \<Longrightarrow> x \<in> set xs \<Longrightarrow> count_list xs x = 1"
  by (induction xs) auto

text \<open>
  C3. On a manifest whose list of installed components is sorted and without duplicates:
  when the id is in the list, \<open>addInstalledComponent\<close> returns the project as it is,
  with nothing written (not even where the manifest cannot be written); when the id is
  not in the list and the manifest can be written, the list becomes the old list with the
  id, sorted, and the one document written is the whole updated configuration; and after
  one call a second call changes nothing, the id being in the list exactly once.
\<close>

theorem addInstalledComponent_idempotent:
  assumes doc: "manifestFile p = Document cfg"
    and srt: "sorted (installedComponents cfg)"
    and dst: "distinct (installedComponents cfg)"
  shows "(i \<in> set (installedComponents cfg) \<longrightarrow> addInstalledComponent i p = Inr p) \<and>
         (i \<notin> set (installedComponents cfg) \<and> \<not> manifestReadOnly p \<longrightarrow>
            addInstalledComponent i p =
              Inr (p\<lparr>manifestFile :=
                       Document (cfg\<lparr>installedComponents := sort (installedComponents cfg @ [i])\<rparr>),
                     manifestWrites := manifestWrites p @
                       [cfg\<lparr>installedComponents := sort (installedComponents cfg @ [i])\<rparr>]\<rparr>)) \<and>
         (\<not> manifestReadOnly p \<longrightarrow>
            (\<exists>p1 cfg1. addInstalledComponent i p = Inr p1 \<and>
                       addInstalledComponent i p1 = Inr p1 \<and>
                       manifestFile p1 = Document cfg1 \<and>
                       count_list (installedComponents cfg1) i = 1 \<and>
                       sorted (installedComponents cfg1) \<and>
                       distinct (installedComponents cfg1)))"
proof (cases "i \<in> set (installedComponents cfg)")
  case True
  have same: "addInstalledComponent i p = Inr p"
    using doc True by (simp add: addInstalledComponent_def readConfig_def)
  have "count_list (installedComponents cfg) i = 1"
    using dst True by (rule count_list_distinct)
  with same doc srt dst True show ?thesis by auto
next
  case False
  let ?cfg1 = "cfg\<lparr>installedComponents := sort (installedComponents cfg @ [i])\<rparr>"
  let ?p1 = "p\<lparr>manifestFile := Document ?cfg1, manifestWrites := manifestWrites p @ [?cfg1]\<rparr>"
  have first: "\<not> manifestReadOnly p \<Longrightarrow> addInstalledComponent i p = Inr ?p1"
    using doc False by (simp add: addInstalledComponent_def readConfig_def writeConfig_def)
  have second: "addInstalledComponent i ?p1 = Inr ?p1"
    by (simp add: addInstalledComponent_def readConfig_def)
  have d1: "distinct (installedComponents ?cfg1)"
    using dst False by simp
  have "i \<in> set (installedComponents ?cfg1)" by simp
  with d1 have c1: "count_list (installedComponents ?cfg1) i = 1"
    by (rule count_list_distinct)
  have s1: "sorted (installedComponents ?cfg1)" by simp
  have m1: "manifestFile ?p1 = Document ?cfg1" by simp
  from first second m1 c1 s1 d1 False show ?thesis by blast
qed

text \<open>Adding \<open>button\<close>, and adding \<open>card\<close> again, to a manifest with \<open>alert\<close> and \<open>card\<close>.\<close>

theorem addInstalledComponent_witness:
  "addInstalledComponent ''button'' (projectWith [''alert'', ''card''] []) =
     Inr ((projectWith [''alert'', ''card''] [])
            \<lparr>manifestFile := Document (defaultConfig\<lparr>installedComponents := [''alert'', ''button'', ''card'']\<rparr>),
             manifestWrites := [defaultConfig\<lparr>installedComponents := [''alert'', ''button'', ''card'']\<rparr>]\<rparr>) \<and>
   addInstalledComponent ''card'' (projectWith [''alert'', ''card''] []) =
     Inr (projectWith [''alert'', ''card''] [])"
proof -
  let ?cfg = "defaultConfig\<lparr>installedComponents := [''alert'', ''card'']\<rparr>"
  let ?p = "projectWith [''alert'', ''card''] []"
  have doc: "manifestFile ?p = Document ?cfg" by (simp add: projectWith_def)
  have srt: "sorted (installedComponents ?cfg)" by simp
  have dst: "distinct (installedComponents ?cfg)" by simp
  have rw: "\<not> manifestReadOnly ?p" by (simp add: projectWith_def)
  have absent: "''button'' \<notin> set (installedComponents ?cfg)" by simp
  have present: "''card'' \<in> set (installedComponents ?cfg)" by simp
  have sorted_new: "sort (installedComponents ?cfg @ [''button'']) = [''alert'', ''button'', ''card'']"
    by simp
  have log: "manifestWrites ?p = []" by (simp add: projectWith_def)
  from addInstalledComponent_idempotent[OF doc srt dst, of "''button''"] absent rw
  have "addInstalledComponent ''button'' ?p =
          Inr (?p\<lparr>manifestFile :=
                     Document (?cfg\<lparr>installedComponents := sort (installedComponents ?cfg @ [''button''])\<rparr>),
                   manifestWrites := manifestWrites ?p @
                     [?cfg\<lparr>installedComponents := sort (installedComponents ?cfg @ [''button''])\<rparr>]\<rparr>)"
    by blast
  then have one: "addInstalledComponent ''button'' ?p =
     Inr (?p\<lparr>manifestFile := Document (defaultConfig\<lparr>installedComponents := [''alert'', ''button'', ''card'']\<rparr>),
             manifestWrites := [defaultConfig\<lparr>installedComponents := [''alert'', ''button'', ''card'']\<rparr>]\<rparr>)"
    unfolding sorted_new log by simp
  from addInstalledComponent_idempotent[OF doc srt dst, of "''card''"] present
  have two: "addInstalledComponent ''card'' ?p = Inr ?p" by blast
  from one two show ?thesis by blast
qed

section \<open>The manifest helpers without a manifest\<close>

text \<open>
  C10. When \<open>diamant.json\<close> is missing or cannot be parsed, \<open>readConfig\<close> returns
  \<open>null\<close>, and both \<open>addInstalledComponent\<close> and \<open>removeInstalledComponent\<close> return
  normally for every id, leaving the project, and the record of writes, as they were.
\<close>

theorem manifest_helpers_without_manifest:
  assumes "manifestFile p = Missing \<or> manifestFile p = Unparseable"
  shows "readConfig p = None \<and> addInstalledComponent i p = Inr p \<and>
         removeInstalledComponent i p = Inr p"
  using assms
  by (auto simp: readConfig_def addInstalledComponent_def removeInstalledComponent_def)

text \<open>A project without a manifest, in a place where writing one would fail.\<close>

theorem manifest_helpers_without_manifest_witness:
  "manifestFile ((projectWith [] [])\<lparr>manifestFile := Missing, manifestReadOnly := True\<rparr>) = Missing \<and>
   addInstalledComponent ''button'' ((projectWith [] [])\<lparr>manifestFile := Missing, manifestReadOnly := True\<rparr>) =
     Inr ((projectWith [] [])\<lparr>manifestFile := Missing, manifestReadOnly := True\<rparr>) \<and>
   removeInstalledComponent ''button'' ((projectWith [] [])\<lparr>manifestFile := Missing, manifestReadOnly := True\<rparr>) =
     Inr ((projectWith [] [])\<lparr>manifestFile := Missing, manifestReadOnly := True\<rparr>)"
proof -
  let ?p = "(projectWith [] [])\<lparr>manifestFile := Missing, manifestReadOnly := True\<rparr>"
  have m: "manifestFile ?p = Missing" by simp
  then have "manifestFile ?p = Missing \<or> manifestFile ?p = Unparseable" ..
  from manifest_helpers_without_manifest[OF this, of "''button''"] m show ?thesis by blast
qed

section \<open>Partial failure of the copy phase of \<open>add\<close>\<close>

text \<open>The default configuration in a Next.js project, and the transform of the template.\<close>

lemma default_import_path:
  "getUtilsImportPath ''nextjs'' ''src/components/ui'' ''src/lib'' = ''@/lib/utils''"
  by (simp add: getUtilsImportPath_def)

lemma transform_templateText: "transformContent ''@/lib/utils'' templateText = installedText"
  by (simp add: transformContent_def templateText_def installedText_def matchUtilsImport_def
        isWhiteSpace_def isQuote_def)

text \<open>What one successful pass of the \<open>try\<close> block leaves behind.\<close>

lemma addInstalledComponent_frame:
  assumes "addInstalledComponent nm p = Inr p'"
  shows "componentFiles p' = componentFiles p \<and> unwritable p' = unwritable p \<and>
         manifestReadOnly p' = manifestReadOnly p"
  using assms
  by (auto simp: addInstalledComponent_def writeConfig_def split: option.splits if_splits)

lemma addInstalledComponent_installed:
  assumes "addInstalledComponent nm p = Inr p'" and "readConfig p \<noteq> None"
  shows "isComponentInstalled nm p'"
  using assms
  by (auto simp: addInstalledComponent_def writeConfig_def isComponentInstalled_def
        readConfig_def split: option.splits if_splits ManifestFile.splits)

lemma isComponentInstalled_readConfig: "isComponentInstalled nm p \<Longrightarrow> readConfig p \<noteq> None"
  by (auto simp: isComponentInstalled_def split: option.splits)

lemma writeFile_readConfig: "writeFile file content p = Inr p' \<Longrightarrow> readConfig p' = readConfig p"
  by (auto simp: writeFile_def readConfig_def split: if_splits)

lemma copyComponentFile_fails:
  assumes "templates env file = None \<or> file \<in> unwritable p"
  shows "copyComponentFile env cfg nm file p = (Some IOError, p)"
  using assms by (auto simp: copyComponentFile_def writeFile_def split: option.splits)

lemma copyComponentFile_succeeds:
  assumes "copyComponentFile env cfg nm file p = (None, p')"
  shows "\<exists>content. templates env file = Some content \<and>
           componentFiles p' =
             (componentFiles p)(file \<mapsto>
                transformContent (getUtilsImportPath (projectType env) (components (aliases cfg))
                                    (utils (aliases cfg))) content) \<and>
           (readConfig p \<noteq> None \<longrightarrow> isComponentInstalled nm p')"
proof -
  from assms obtain content p1 where
    src: "templates env file = Some content" and
    wr: "writeFile file
           (transformContent (getUtilsImportPath (projectType env) (components (aliases cfg))
                                (utils (aliases cfg))) content) p = Inr p1" and
    ins: "addInstalledComponent nm p1 = Inr p'"
    by (auto simp: copyComponentFile_def split: option.splits sum.splits)
  from wr have files1: "componentFiles p1 =
             (componentFiles p)(file \<mapsto>
                transformContent (getUtilsImportPath (projectType env) (components (aliases cfg))
                                    (utils (aliases cfg))) content)"
    by (auto simp: writeFile_def split: if_splits)
  from addInstalledComponent_frame[OF ins] files1
  have files': "componentFiles p' =
             (componentFiles p)(file \<mapsto>
                transformContent (getUtilsImportPath (projectType env) (components (aliases cfg))
                                    (utils (aliases cfg))) content)"
    by simp
  have "readConfig p \<noteq> None \<Longrightarrow> isComponentInstalled nm p'"
    using addInstalledComponent_installed[OF ins] writeFile_readConfig[OF wr] by simp
  with src files' show ?thesis by blast
qed

text \<open>The loop over the files of a component, as far as it has gone without an error.\<close>

lemma copyComponentFiles_completed_quiet:
  "copyComponentFiles env cfg nm fs p = (Completed, p', out) \<Longrightarrow> out = []"
  by (induction fs arbitrary: p) (auto split: prod.splits option.splits)

lemma copyComponentFiles_other:
  "copyComponentFiles env cfg nm fs p = (Completed, p', out) \<Longrightarrow> f \<notin> set fs \<Longrightarrow>
   componentFiles p' f = componentFiles p f"
proof (induction fs arbitrary: p)
  case Nil
  then show ?case by simp
next
  case (Cons x xs)
  from Cons.prems(1) obtain p1 where
    one: "copyComponentFile env cfg nm x p = (None, p1)" and
    more: "copyComponentFiles env cfg nm xs p1 = (Completed, p', out)"
    by (auto split: prod.splits option.splits)
  from copyComponentFile_succeeds[OF one] Cons.prems(2)
  have "componentFiles p1 f = componentFiles p f" by auto
  moreover from Cons.IH[OF more] Cons.prems(2)
  have "componentFiles p' f = componentFiles p1 f" by simp
  ultimately show ?case by simp
qed

lemma copyComponentFiles_written:
  "copyComponentFiles env cfg nm fs p = (Completed, p', out) \<Longrightarrow> f \<in> set fs \<Longrightarrow>
   \<exists>content. templates env f = Some content \<and>
     componentFiles p' f =
       Some (transformContent (getUtilsImportPath (projectType env) (components (aliases cfg))
                                 (utils (aliases cfg))) content)"
proof (induction fs arbitrary: p)
  case Nil
  then show ?case by simp
next
  case (Cons x xs)
  from Cons.prems(1) obtain p1 where
    one: "copyComponentFile env cfg nm x p = (None, p1)" and
    more: "copyComponentFiles env cfg nm xs p1 = (Completed, p', out)"
    by (auto split: prod.splits option.splits)
  show ?case
  proof (cases "f \<in> set xs")
    case True
    from Cons.IH[OF more True] show ?thesis .
  next
    case False
    with Cons.prems(2) have fx: "f = x" by simp
    from copyComponentFiles_other[OF more False] have "componentFiles p' f = componentFiles p1 f" .
    with copyComponentFile_succeeds[OF one] fx show ?thesis by auto
  qed
qed

lemma copyComponentFiles_installed:
  "copyComponentFiles env cfg nm fs p = (Completed, p', out) \<Longrightarrow> fs \<noteq> [] \<Longrightarrow>
   readConfig p \<noteq> None \<Longrightarrow> isComponentInstalled nm p'"
proof (induction fs arbitrary: p)
  case Nil
  then show ?case by simp
next
  case (Cons x xs)
  from Cons.prems(1) obtain p1 where
    one: "copyComponentFile env cfg nm x p = (None, p1)" and
    more: "copyComponentFiles env cfg nm xs p1 = (Completed, p', out)"
    by (auto split: prod.splits option.splits)
  from copyComponentFile_succeeds[OF one] Cons.prems(3)
  have inst1: "isComponentInstalled nm p1" by blast
  show ?case
  proof (cases "xs = []")
    case True
    with more inst1 show ?thesis by simp
  next
    case False
    from Cons.IH[OF more False isComponentInstalled_readConfig[OF inst1]] show ?thesis .
  qed
qed

lemma copyComponentFiles_fails_at:
  assumes "copyComponentFiles env cfg nm pre p = (Completed, p1, out1)"
    and "copyComponentFile env cfg nm file p1 = (Some e, p2)"
  shows "copyComponentFiles env cfg nm (pre @ file # post) p = (Exited 1, p2, [FailedToCopy file e])"
  using assms
  by (induction pre arbitrary: p) (auto split: prod.splits option.splits)

text \<open>
  C2, as the code has it. Let the copy phase reach a component whose files are \<open>pre\<close>,
  then \<open>file\<close>, then \<open>post\<close>, in a project with a manifest; let the files of \<open>pre\<close>
  be copied without error, and let the copy of \<open>file\<close> fail, its template being unreadable
  or its destination unwritable. Then the command exits with status 1 in the state that
  the copies of \<open>pre\<close> have left: each file of \<open>pre\<close> holds its transformed template,
  no other file has been touched (the files of \<open>post\<close> are not attempted) and no further
  component is processed. The manifest is as it was when \<open>file\<close> is the first file of
  the component; otherwise the component is already marked installed, since
  \<open>addInstalledComponent\<close> runs after every file that is written.
\<close>

theorem add_copy_failure:
  assumes comp: "registry_get reg nm = Some (Component def)"
    and fs: "files def = pre @ file # post"
    and manifest: "readConfig p \<noteq> None"
    and pre_ok: "copyComponentFiles env cfg nm pre p = (Completed, p1, out1)"
    and fail: "templates env file = None \<or> file \<in> unwritable p1"
  shows "addCopy reg env cfg (nm # others) n p = (Exited 1, p1, [FailedToCopy file IOError]) \<and>
         (\<forall>f \<in> set pre. \<exists>content. templates env f = Some content \<and>
             componentFiles p1 f =
               Some (transformContent
                       (getUtilsImportPath (projectType env) (components (aliases cfg))
                          (utils (aliases cfg))) content)) \<and>
         (\<forall>f. f \<notin> set pre \<longrightarrow> componentFiles p1 f = componentFiles p f) \<and>
         (pre = [] \<longrightarrow> p1 = p) \<and>
         (pre \<noteq> [] \<longrightarrow> isComponentInstalled nm p1)"
proof -
  from copyComponentFiles_fails_at[OF pre_ok copyComponentFile_fails[OF fail]]
  have "copyComponentFiles env cfg nm (files def) p = (Exited 1, p1, [FailedToCopy file IOError])"
    by (simp add: fs)
  with comp have abort:
    "addCopy reg env cfg (nm # others) n p = (Exited 1, p1, [FailedToCopy file IOError])"
    by simp
  have written: "\<forall>f \<in> set pre. \<exists>content. templates env f = Some content \<and>
             componentFiles p1 f =
               Some (transformContent
                       (getUtilsImportPath (projectType env) (components (aliases cfg))
                          (utils (aliases cfg))) content)"
    using copyComponentFiles_written[OF pre_ok] by blast
  have untouched: "\<forall>f. f \<notin> set pre \<longrightarrow> componentFiles p1 f = componentFiles p f"
    using copyComponentFiles_other[OF pre_ok] by blast
  have first: "pre = [] \<longrightarrow> p1 = p"
    using pre_ok by auto
  have later: "pre \<noteq> [] \<longrightarrow> isComponentInstalled nm p1"
    using copyComponentFiles_installed[OF pre_ok _ manifest] by blast
  from abort written untouched first later show ?thesis by blast
qed

text \<open>The first file of \<open>widget\<close>, copied into an empty project.\<close>

lemma copy_first_widget_file:
  "copyComponentFile (envWith ((''Widget.tsx'', templateText) # others)) defaultConfig ''widget'' ''Widget.tsx''
     ((projectWith [] [])\<lparr>unwritable := ro\<rparr>) =
   (if ''Widget.tsx'' \<in> ro then (Some IOError, (projectWith [] [])\<lparr>unwritable := ro\<rparr>)
    else (None, widgetInstalled\<lparr>unwritable := ro\<rparr>))"
  by (simp add: copyComponentFile_def envWith_def defaultConfig_def default_import_path
        transform_templateText writeFile_def projectWith_def addInstalledComponent_def
        readConfig_def writeConfig_def widgetInstalled_def)

text \<open>
  C2 as stated, at a component of two files whose second template cannot be read: the
  first file is written, the command exits with status 1, and the manifest, which did not
  list the component, lists it.
\<close>

theorem add_copy_marks_installed_counterexample:
  "\<not> isComponentInstalled ''widget'' (projectWith [] []) \<and>
   addComponents twoFileRegistry (envWith [(''Widget.tsx'', templateText)]) defaultConfig
     [''widget''] (projectWith [] []) =
     (Exited 1, widgetInstalled, [FailedToCopy ''WidgetItem.tsx'' IOError]) \<and>
   componentFiles widgetInstalled ''Widget.tsx'' = Some installedText \<and>
   componentFiles widgetInstalled ''WidgetItem.tsx'' = None \<and>
   isComponentInstalled ''widget'' widgetInstalled"
proof -
  have before: "\<not> isComponentInstalled ''widget'' (projectWith [] [])"
    by (simp add: isComponentInstalled_def readConfig_def projectWith_def)
  have first: "copyComponentFile (envWith [(''Widget.tsx'', templateText)]) defaultConfig ''widget''
                 ''Widget.tsx'' (projectWith [] []) = (None, widgetInstalled)"
    using copy_first_widget_file[of "[]" "{}"] by (simp add: projectWith_def widgetInstalled_def)
  have second: "copyComponentFile (envWith [(''Widget.tsx'', templateText)]) defaultConfig ''widget''
                 ''WidgetItem.tsx'' widgetInstalled = (Some IOError, widgetInstalled)"
    by (rule copyComponentFile_fails) (simp add: envWith_def)
  have "copyComponentFiles (envWith [(''Widget.tsx'', templateText)]) defaultConfig ''widget''
          [''Widget.tsx'', ''WidgetItem.tsx''] (projectWith [] []) =
        (Exited 1, widgetInstalled, [FailedToCopy ''WidgetItem.tsx'' IOError])"
    by (simp add: first second)
  then have run: "addComponents twoFileRegistry (envWith [(''Widget.tsx'', templateText)])
          defaultConfig [''widget''] (projectWith [] []) =
        (Exited 1, widgetInstalled, [FailedToCopy ''WidgetItem.tsx'' IOError])"
    by (simp add: addComponents_def registry_get_def twoFileRegistry_def component_def)
  have files: "componentFiles widgetInstalled ''Widget.tsx'' = Some installedText \<and>
               componentFiles widgetInstalled ''WidgetItem.tsx'' = None"
    by (simp add: widgetInstalled_def projectWith_def)
  have after: "isComponentInstalled ''widget'' widgetInstalled"
    by (simp add: isComponentInstalled_def readConfig_def widgetInstalled_def)
  from before run files after show ?thesis by blast
qed

text \<open>The same component where the second file cannot be written.\<close>

theorem add_copy_failure_witness:
  "addCopy twoFileRegistry
     (envWith [(''Widget.tsx'', templateText), (''WidgetItem.tsx'', templateText)]) defaultConfig
     [''widget''] 1 ((projectWith [] [])\<lparr>unwritable := {''WidgetItem.tsx''}\<rparr>) =
     (Exited 1, widgetInstalled\<lparr>unwritable := {''WidgetItem.tsx''}\<rparr>,
      [FailedToCopy ''WidgetItem.tsx'' IOError]) \<and>
   componentFiles (widgetInstalled\<lparr>unwritable := {''WidgetItem.tsx''}\<rparr>) ''Widget.tsx'' =
     Some installedText \<and>
   componentFiles (widgetInstalled\<lparr>unwritable := {''WidgetItem.tsx''}\<rparr>) ''WidgetItem.tsx'' = None \<and>
   isComponentInstalled ''widget'' (widgetInstalled\<lparr>unwritable := {''WidgetItem.tsx''}\<rparr>)"
proof -
  let ?env = "envWith [(''Widget.tsx'', templateText), (''WidgetItem.tsx'', templateText)]"
  let ?def = "component ''Widget'' ''A component of two files'' [] []
                [''Widget.tsx'', ''WidgetItem.tsx'']"
  let ?p = "(projectWith [] [])\<lparr>unwritable := {''WidgetItem.tsx''}\<rparr>"
  let ?p1 = "widgetInstalled\<lparr>unwritable := {''WidgetItem.tsx''}\<rparr>"
  have comp: "registry_get twoFileRegistry ''widget'' = Some (Component ?def)"
    by (simp add: registry_get_def twoFileRegistry_def)
  have fs: "files ?def = [''Widget.tsx''] @ ''WidgetItem.tsx'' # []"
    by (simp add: component_def)
  have manifest: "readConfig ?p \<noteq> None"
    by (simp add: readConfig_def projectWith_def)
  have pre_ok: "copyComponentFiles ?env defaultConfig ''widget'' [''Widget.tsx''] ?p = (Completed, ?p1, [])"
    using copy_first_widget_file[of "[(''WidgetItem.tsx'', templateText)]" "{''WidgetItem.tsx''}"]
    by simp
  have fail: "templates ?env ''WidgetItem.tsx'' = None \<or> ''WidgetItem.tsx'' \<in> unwritable ?p1"
    by simp
  have other: "''WidgetItem.tsx'' \<notin> set [''Widget.tsx'']" by simp
  have start: "componentFiles ?p ''WidgetItem.tsx'' = None"
    by (simp add: projectWith_def)
  from add_copy_failure[OF comp fs manifest pre_ok fail, of "[]" 1] other start
  have "addCopy twoFileRegistry ?env defaultConfig [''widget''] 1 ?p =
          (Exited 1, ?p1, [FailedToCopy ''WidgetItem.tsx'' IOError]) \<and>
        componentFiles ?p1 ''WidgetItem.tsx'' = None \<and>
        isComponentInstalled ''widget'' ?p1"
    by auto
  moreover have "componentFiles ?p1 ''Widget.tsx'' = Some installedText"
    by (simp add: widgetInstalled_def projectWith_def)
  ultimately show ?thesis by blast
qed

section \<open>Removing a component that others depend on\<close>

text \<open>The second loop of \<open>remove\<close> keeps exactly the names whose first file is on disk.\<close>

lemma onDisk_filter:
  "onDisk reg p vs = Inr found \<Longrightarrow> found = filter (isOnDisk reg p) vs"
  by (induction vs arbitrary: found)
     (auto simp: isOnDisk_def split: option.splits property.splits sum.splits if_splits)

lemma onDisk_components:
  "onDisk reg p vs = Inr found \<Longrightarrow> nm \<in> set vs \<Longrightarrow>
   \<exists>d. registry_get reg nm = Some (Component d)"
  by (induction vs arbitrary: found)
     (auto split: option.splits property.splits sum.splits if_splits)

lemma onDisk_of_present:
  "\<forall>nm \<in> set vs. isOnDisk reg p nm \<Longrightarrow> onDisk reg p vs = Inr vs"
  by (induction vs)
     (auto simp: isOnDisk_def split: option.splits property.splits sum.splits)

text \<open>The last loop of \<open>remove\<close> on a manifest that can be written.\<close>

lemma deleteFile_fields:
  "manifestFile (deleteFile f p) = manifestFile p \<and>
   manifestReadOnly (deleteFile f p) = manifestReadOnly p \<and>
   componentFiles (deleteFile f p) = (componentFiles p)(f := None)"
  by (auto simp: deleteFile_def fileExists_def)

lemma deleteFiles_fields:
  "manifestFile (deleteFiles fs p) = manifestFile p \<and>
   manifestReadOnly (deleteFiles fs p) = manifestReadOnly p \<and>
   componentFiles (deleteFiles fs p) = (\<lambda>f. if f \<in> set fs then None else componentFiles p f)"
  by (induction fs arbitrary: p) (auto simp: deleteFile_fields)

lemma removeInstalledComponent_result:
  assumes "manifestFile p = Document cfg" and "\<not> manifestReadOnly p"
  shows "\<exists>p'. removeInstalledComponent nm p = Inr p' \<and>
           manifestFile p' =
             Document (cfg\<lparr>installedComponents := remove1 nm (installedComponents cfg)\<rparr>) \<and>
           \<not> manifestReadOnly p' \<and> componentFiles p' = componentFiles p"
proof (cases "nm \<in> set (installedComponents cfg)")
  case True
  with assms show ?thesis
    by (simp add: removeInstalledComponent_def readConfig_def writeConfig_def)
next
  case False
  then have "remove1 nm (installedComponents cfg) = installedComponents cfg"
    by (simp add: remove1_idem)
  with False assms show ?thesis
    by (simp add: removeInstalledComponent_def readConfig_def)
qed

lemma removeLoop_result:
  assumes "\<forall>nm \<in> set ns. \<exists>d. registry_get reg nm = Some (Component d)"
    and "manifestFile p = Document cfg" and "\<not> manifestReadOnly p"
  shows "\<exists>p'. removeLoop reg ns p = (None, p') \<and>
           manifestFile p' =
             Document (cfg\<lparr>installedComponents :=
                             foldl (\<lambda>xs n. remove1 n xs) (installedComponents cfg) ns\<rparr>) \<and>
           componentFiles p' =
             (\<lambda>f. if f \<in> (\<Union>nm \<in> set ns. set (filesOf reg nm)) then None
                  else componentFiles p f)"
  using assms
proof (induction ns arbitrary: p cfg)
  case Nil
  then show ?case by simp
next
  case (Cons n ns)
  from Cons.prems(1) obtain d where d: "registry_get reg n = Some (Component d)" by auto
  let ?q = "deleteFiles (files d) p"
  have q: "manifestFile ?q = Document cfg" "\<not> manifestReadOnly ?q"
    using Cons.prems(2,3) by (simp_all add: deleteFiles_fields)
  from removeInstalledComponent_result[OF q, of n] obtain p1 where
    p1: "removeInstalledComponent n ?q = Inr p1" and
    m1: "manifestFile p1 =
           Document (cfg\<lparr>installedComponents := remove1 n (installedComponents cfg)\<rparr>)" and
    r1: "\<not> manifestReadOnly p1" and
    f1: "componentFiles p1 = componentFiles ?q"
    by blast
  have rest: "\<forall>nm \<in> set ns. \<exists>d. registry_get reg nm = Some (Component d)"
    using Cons.prems(1) by simp
  from Cons.IH[OF rest m1 r1] obtain p' where
    loop: "removeLoop reg ns p1 = (None, p')" and
    m': "manifestFile p' =
           Document (cfg\<lparr>installedComponents :=
                           foldl (\<lambda>xs n. remove1 n xs) (remove1 n (installedComponents cfg)) ns\<rparr>)" and
    f': "componentFiles p' =
           (\<lambda>f. if f \<in> (\<Union>nm \<in> set ns. set (filesOf reg nm)) then None
                else componentFiles p1 f)"
    by auto
  have "removeLoop reg (n # ns) p = (None, p')"
    using d p1 loop by simp
  moreover have "componentFiles p' =
             (\<lambda>f. if f \<in> (\<Union>nm \<in> set (n # ns). set (filesOf reg nm)) then None
                  else componentFiles p f)"
  proof -
    have "filesOf reg n = files d" using d by (simp add: filesOf_def)
    with f' f1 show ?thesis by (auto simp: deleteFiles_fields fun_eq_iff)
  qed
  ultimately show ?case using m' by simp
qed

lemma set_foldl_remove1:
  "distinct xs \<Longrightarrow> set (foldl (\<lambda>xs n. remove1 n xs) xs ns) = set xs - set ns"
  by (induction ns arbitrary: xs) auto

text \<open>
  The scan for dependents finds exactly the keys of registry entries that list a name to
  be removed among their internal dependencies, are in the manifest and are not
  themselves to be removed.
\<close>

lemma set_dependentComponents:
  "set (dependentComponents reg allInstalled toRemove) =
     {y. \<exists>e nm. (y, e) \<in> set reg \<and> nm \<in> set toRemove \<and>
                 nm \<in> set (internalDependencies e) \<and>
                 y \<in> set allInstalled \<and> y \<notin> set toRemove}"
proof (intro set_eqI iffI)
  fix y
  assume "y \<in> set (dependentComponents reg allInstalled toRemove)"
  then obtain nm e where "nm \<in> set toRemove" "(y, e) \<in> set reg"
    "nm \<in> set (internalDependencies e)" "y \<in> set allInstalled" "y \<notin> set toRemove"
    by (auto simp: dependentComponents_def)
  then show "y \<in> {y. \<exists>e nm. (y, e) \<in> set reg \<and> nm \<in> set toRemove \<and>
                 nm \<in> set (internalDependencies e) \<and>
                 y \<in> set allInstalled \<and> y \<notin> set toRemove}"
    by blast
next
  fix y
  assume "y \<in> {y. \<exists>e nm. (y, e) \<in> set reg \<and> nm \<in> set toRemove \<and>
                 nm \<in> set (internalDependencies e) \<and>
                 y \<in> set allInstalled \<and> y \<notin> set toRemove}"
  then obtain e nm where h: "(y, e) \<in> set reg" "nm \<in> set toRemove"
    "nm \<in> set (internalDependencies e)" "y \<in> set allInstalled" "y \<notin> set toRemove"
    by blast
  then have "(y, e) \<in> set (filter (\<lambda>(otherName, otherDef).
                                  nm \<in> set (internalDependencies otherDef) \<and>
                                  otherName \<in> set allInstalled \<and>
                                  otherName \<notin> set toRemove) reg)"
    by simp
  then have "y \<in> fst ` set (filter (\<lambda>(otherName, otherDef).
                                  nm \<in> set (internalDependencies otherDef) \<and>
                                  otherName \<in> set allInstalled \<and>
                                  otherName \<notin> set toRemove) reg)"
    by (rule image_eqI[rotated]) simp
  with h(2) show "y \<in> set (dependentComponents reg allInstalled toRemove)"
    unfolding dependentComponents_def by (simp del: set_filter) blast
qed

lemma displayName_entry:
  assumes "distinct (map fst reg)" and "(x, d) \<in> set reg"
  shows "displayName reg x = name d"
proof -
  from assms have "map_of reg x = Some d" by (rule map_of_is_SomeI)
  then show ?thesis by (simp add: displayName_def registry_get_def)
qed

text \<open>
  C6. Let the registry have each key once, let the manifest list its components once each
  and be writable, let \<open>remove\<close> find the non-empty list \<open>toRemove\<close> of valid
  requested names on disk, and let the user pass \<open>--yes\<close> or confirm. Let \<open>x\<close> be a
  dependent: the key of a component \<open>d\<close> of the registry whose internal dependencies
  include a name \<open>nm\<close> of \<open>toRemove\<close>, that is in the manifest and is not in
  \<open>toRemove\<close>. Then \<open>remove\<close> completes. What it prints is the unknown names if
  there are any, then the warning, then (without \<open>--yes\<close>) the list of what will be
  removed, then the count. The warning lists, by their display names, exactly the
  components that depend on a removed name, are in the manifest and are not removed; the
  display name of \<open>d\<close> is among them. Every file of every component of \<open>toRemove\<close> is
  gone and every other file is as it was; the manifest has lost exactly the names of
  \<open>toRemove\<close>, so \<open>x\<close> is still in it.
\<close>

theorem remove_warns_and_removes:
  assumes keys: "distinct (map fst reg)"
    and doc: "manifestFile p = Document cfg"
    and dst: "distinct (installedComponents cfg)"
    and rw: "\<not> manifestReadOnly p"
    and disk: "onDisk reg p (validComponents reg comps) = Inr toRemove"
    and ne: "toRemove \<noteq> []"
    and go: "yes \<or> confirmed"
    and entry: "(x, d) \<in> set reg"
    and removed: "nm \<in> set toRemove"
    and needs: "nm \<in> set (internalDependencies d)"
    and listed: "x \<in> set (installedComponents cfg)"
    and stays: "x \<notin> set toRemove"
  shows "\<exists>p' cfg' dependents.
           remove reg comps yes confirmed p =
             (Completed, p',
              (if invalidComponents reg comps \<noteq> []
               then [UnknownComponents (invalidComponents reg comps)] else []) @
              [DependentsWarning (map (displayName reg) dependents)] @
              (if \<not> yes then [WillBeRemoved (map (displayName reg) toRemove)] else []) @
              [Removed (length toRemove)]) \<and>
           set dependents =
             {y. \<exists>e k. (y, e) \<in> set reg \<and> k \<in> set toRemove \<and>
                        k \<in> set (internalDependencies e) \<and>
                        y \<in> set (installedComponents cfg) \<and> y \<notin> set toRemove} \<and>
           x \<in> set dependents \<and>
           name d \<in> set (map (displayName reg) dependents) \<and>
           manifestFile p' = Document cfg' \<and>
           set (installedComponents cfg') = set (installedComponents cfg) - set toRemove \<and>
           x \<in> set (installedComponents cfg') \<and>
           (\<forall>k \<in> set toRemove. \<forall>f \<in> set (filesOf reg k). componentFiles p' f = None) \<and>
           (\<forall>f. f \<notin> (\<Union>k \<in> set toRemove. set (filesOf reg k)) \<longrightarrow>
                componentFiles p' f = componentFiles p f)"
proof -
  have comps: "\<forall>k \<in> set toRemove. \<exists>c. registry_get reg k = Some (Component c)"
    using onDisk_filter[OF disk] onDisk_components[OF disk] by auto
  from removeLoop_result[OF comps doc rw] obtain p' where
    loop: "removeLoop reg toRemove p = (None, p')" and
    m': "manifestFile p' =
           Document (cfg\<lparr>installedComponents :=
                           foldl (\<lambda>xs n. remove1 n xs) (installedComponents cfg) toRemove\<rparr>)" and
    f': "componentFiles p' =
           (\<lambda>f. if f \<in> (\<Union>k \<in> set toRemove. set (filesOf reg k)) then None
                else componentFiles p f)"
    by blast
  let ?cfg' = "cfg\<lparr>installedComponents :=
                     foldl (\<lambda>xs n. remove1 n xs) (installedComponents cfg) toRemove\<rparr>"
  let ?deps = "dependentComponents reg (installedComponents cfg) toRemove"
  let ?unknown = "if invalidComponents reg comps \<noteq> []
                  then [UnknownComponents (invalidComponents reg comps)] else []"
  let ?listing = "if \<not> yes then [WillBeRemoved (map (displayName reg) toRemove)] else []"
  let ?out = "?unknown @ [DependentsWarning (map (displayName reg) ?deps)] @ ?listing @
              [Removed (length toRemove)]"
  have exact: "set ?deps =
             {y. \<exists>e k. (y, e) \<in> set reg \<and> k \<in> set toRemove \<and>
                        k \<in> set (internalDependencies e) \<and>
                        y \<in> set (installedComponents cfg) \<and> y \<notin> set toRemove}"
    by (rule set_dependentComponents)
  from entry removed needs listed stays have dep: "x \<in> set ?deps"
    unfolding exact by blast
  then have depne: "?deps \<noteq> []" by auto
  from dep have shown: "name d \<in> set (map (displayName reg) ?deps)"
    using displayName_entry[OF keys entry] by force
  from disk ne have valid: "validComponents reg comps \<noteq> []" by auto
  have run: "remove reg comps yes confirmed p = (Completed, p', ?out)"
    using doc disk ne go depne valid loop
    by (simp add: remove_def configExists_def readConfig_def Let_def)
  have inst: "set (installedComponents ?cfg') = set (installedComponents cfg) - set toRemove"
    using dst by (simp add: set_foldl_remove1)
  from listed stays inst
  have keep: "x \<in> set (installedComponents ?cfg')" by simp
  have gone: "\<forall>k \<in> set toRemove. \<forall>f \<in> set (filesOf reg k). componentFiles p' f = None"
    using f' by auto
  have rest: "\<forall>f. f \<notin> (\<Union>k \<in> set toRemove. set (filesOf reg k)) \<longrightarrow>
                componentFiles p' f = componentFiles p f"
    using f' by auto
  from run exact dep shown m' inst keep gone rest show ?thesis by blast
qed

text \<open>Removing \<open>button\<close> from a project that also has \<open>carousel\<close>.\<close>

lemma valid_button: "validComponents registry [''button''] = [''button'']"
  by (simp add: validComponents_def lower_simps registry_simps)

lemma invalid_button: "invalidComponents registry [''button''] = []"
  by (simp add: invalidComponents_def lower_simps registry_simps)

lemma registry_button:
  "registry_get registry ''button'' =
     Some (Component (component ''Button''
       ''A clickable button with multiple variants and ripple effect'' [] [] [''Button.tsx'']))"
  by (simp add: registry_get_def registry_def)

lemma registry_carousel:
  "registry_get registry ''carousel'' =
     Some (Component (component ''Carousel''
       ''A slideshow component for cycling through elements''
       [''lucide-react''] [''button''] [''Carousel.tsx'']))"
  by (simp add: registry_get_def registry_def)

lemma onDisk_button: "onDisk registry buttonAndCarousel [''button''] = Inr [''button'']"
  by (simp add: registry_button firstFile_def component_def fileExists_def
        buttonAndCarousel_def projectWith_def)

lemma dependents_of_button:
  "dependentComponents registry [''button'', ''carousel''] [''button''] = [''carousel'']"
  by (simp add: dependentComponents_def registry_def component_def)

text \<open>All that this run prints is the warning and the count.\<close>

lemma readConfig_buttonAndCarousel:
  "readConfig buttonAndCarousel =
     Some (defaultConfig\<lparr>installedComponents := [''button'', ''carousel'']\<rparr>)"
  by (simp add: readConfig_def buttonAndCarousel_def projectWith_def)

lemma configExists_buttonAndCarousel: "configExists buttonAndCarousel"
  by (simp add: configExists_def buttonAndCarousel_def projectWith_def)

lemma remove_button_output:
  "snd (snd (remove registry [''button''] True False buttonAndCarousel)) =
     [DependentsWarning [''Carousel''], Removed 1]"
proof -
  have "\<forall>nm \<in> set [''button'']. \<exists>d. registry_get registry nm = Some (Component d)"
    by (simp add: registry_button)
  moreover have "manifestFile buttonAndCarousel =
      Document (defaultConfig\<lparr>installedComponents := [''button'', ''carousel'']\<rparr>)"
    by (simp add: buttonAndCarousel_def projectWith_def)
  moreover have "\<not> manifestReadOnly buttonAndCarousel"
    by (simp add: buttonAndCarousel_def projectWith_def)
  ultimately obtain p' where
    loop: "removeLoop registry [''button''] buttonAndCarousel = (None, p')"
    using removeLoop_result by blast
  show ?thesis
    by (simp add: remove_def configExists_buttonAndCarousel readConfig_buttonAndCarousel
          valid_button invalid_button onDisk_button dependents_of_button loop displayName_def
          registry_carousel component_def
          del: onDisk.simps removeLoop.simps)
qed

lemma registry_keys_distinct: "distinct (map fst registry)"
  by (simp add: registry_def)

text \<open>
  \<open>remove button --yes\<close> where \<open>button\<close> and \<open>carousel\<close> are installed: \<open>carousel\<close>
  depends on \<open>button\<close>, the warning names Carousel and nothing else, \<open>Button.tsx\<close> is
  deleted and \<open>button\<close> leaves the manifest, while \<open>carousel\<close> stays in the manifest
  and \<open>Carousel.tsx\<close> on disk.
\<close>

theorem remove_button_keeps_carousel_witness:
  "\<exists>p' cfg'.
     remove registry [''button''] True False buttonAndCarousel =
       (Completed, p', [DependentsWarning [''Carousel''], Removed 1]) \<and>
     manifestFile p' = Document cfg' \<and>
     ''button'' \<notin> set (installedComponents cfg') \<and>
     ''carousel'' \<in> set (installedComponents cfg') \<and>
     componentFiles p' ''Button.tsx'' = None \<and>
     componentFiles p' ''Carousel.tsx'' = Some installedText"
proof -
  let ?cfg = "defaultConfig\<lparr>installedComponents := [''button'', ''carousel'']\<rparr>"
  let ?d = "component ''Carousel'' ''A slideshow component for cycling through elements''
              [''lucide-react''] [''button''] [''Carousel.tsx'']"
  have doc: "manifestFile buttonAndCarousel = Document ?cfg"
    by (simp add: buttonAndCarousel_def projectWith_def)
  have dst: "distinct (installedComponents ?cfg)" by simp
  have rw: "\<not> manifestReadOnly buttonAndCarousel"
    by (simp add: buttonAndCarousel_def projectWith_def)
  have disk: "onDisk registry buttonAndCarousel (validComponents registry [''button'']) =
              Inr [''button'']"
    unfolding valid_button by (rule onDisk_button)
  have ne: "[''button''] \<noteq> ([] :: string list)" by simp
  have go: "True \<or> False" by simp
  have entry: "(''carousel'', ?d) \<in> set registry" by (simp add: registry_def)
  have removed: "''button'' \<in> set [''button'']" by simp
  have needs: "''button'' \<in> set (internalDependencies ?d)" by (simp add: component_def)
  have listed: "''carousel'' \<in> set (installedComponents ?cfg)" by simp
  have stays: "''carousel'' \<notin> set [''button'']" by simp
  have fb: "filesOf registry ''button'' = [''Button.tsx'']"
    by (simp add: filesOf_def registry_button component_def)
  have before: "componentFiles buttonAndCarousel ''Carousel.tsx'' = Some installedText"
    by (simp add: buttonAndCarousel_def projectWith_def)
  have inv: "invalidComponents registry [''button''] = []" by (rule invalid_button)
  from remove_warns_and_removes[OF registry_keys_distinct doc dst rw disk ne go entry removed
        needs listed stays]
  obtain p' cfg' dependents where
    run: "remove registry [''button''] True False buttonAndCarousel =
            (Completed, p',
             (if invalidComponents registry [''button''] \<noteq> []
              then [UnknownComponents (invalidComponents registry [''button''])] else []) @
             [DependentsWarning (map (displayName registry) dependents)] @
             (if \<not> True then [WillBeRemoved (map (displayName registry) [''button''])] else []) @
             [Removed (length [''button''])])" and
    exact: "set dependents =
             {y. \<exists>e k. (y, e) \<in> set registry \<and> k \<in> set [''button''] \<and>
                        k \<in> set (internalDependencies e) \<and>
                        y \<in> set (installedComponents ?cfg) \<and> y \<notin> set [''button'']}" and
    doc': "manifestFile p' = Document cfg'" and
    inst: "set (installedComponents cfg') = set (installedComponents ?cfg) - set [''button'']" and
    keep: "''carousel'' \<in> set (installedComponents cfg')" and
    gone: "\<forall>k \<in> set [''button'']. \<forall>f \<in> set (filesOf registry k). componentFiles p' f = None" and
    rest: "\<forall>f. f \<notin> (\<Union>k \<in> set [''button'']. set (filesOf registry k)) \<longrightarrow>
                 componentFiles p' f = componentFiles buttonAndCarousel f"
    by blast
  have same: "remove registry [''button''] True False buttonAndCarousel =
                (Completed, p', [DependentsWarning (map (displayName registry) dependents),
                                 Removed 1])"
    using run by (simp add: inv)
  from remove_button_output same
  have out: "map (displayName registry) dependents = [''Carousel'']" by simp
  from same out have r: "remove registry [''button''] True False buttonAndCarousel =
                (Completed, p', [DependentsWarning [''Carousel''], Removed 1])" by simp
  from inst have nb: "''button'' \<notin> set (installedComponents cfg')" by simp
  from gone fb have g: "componentFiles p' ''Button.tsx'' = None" by simp
  from rest fb before have k: "componentFiles p' ''Carousel.tsx'' = Some installedText" by simp
  from r doc' nb keep g k show ?thesis by blast
qed

section \<open>Requested names that are not on disk\<close>

text \<open>Leaving out valid names changes neither the invalid names nor the other valid ones.\<close>

lemma invalidComponents_filter:
  "invalidComponents reg
     (filter (\<lambda>nm. registry_get reg (toLowerCase nm) = None \<or> P nm) comps) =
   invalidComponents reg comps"
proof -
  have "\<And>nm. ((registry_get reg (toLowerCase nm) = None \<or> P nm) \<and>
              registry_get reg (toLowerCase nm) = None) =
             (registry_get reg (toLowerCase nm) = None)"
    by blast
  then show ?thesis by (simp add: invalidComponents_def)
qed

lemma validComponents_filter:
  "validComponents reg
     (filter (\<lambda>nm. registry_get reg (toLowerCase nm) = None \<or> Q (toLowerCase nm)) comps) =
   filter Q (validComponents reg comps)"
proof -
  have "\<And>nm. ((registry_get reg (toLowerCase nm) = None \<or> Q (toLowerCase nm)) \<and>
              registry_get reg (toLowerCase nm) \<noteq> None) =
             (registry_get reg (toLowerCase nm) \<noteq> None \<and> Q (toLowerCase nm))"
    by blast
  then show ?thesis by (simp add: validComponents_def filter_map o_def)
qed

text \<open>
  C7, as the code has it. In a project with a manifest where the second loop of
  \<open>remove\<close> ends without an error: the names to delete are exactly the valid requested
  names whose first file is on disk, so every valid name whose first file is missing is
  excluded. When no valid name is on disk, \<open>remove\<close> says so in one message that names
  none of them and changes nothing. When some valid name is on disk, the valid names that
  are not on disk leave no trace: \<open>remove\<close> prints and does exactly what it prints and
  does for the request without them.
\<close>

theorem remove_drops_missing_silently:
  assumes cfg: "readConfig p = Some cfg"
    and disk: "onDisk reg p (validComponents reg comps) = Inr toRemove"
  shows "toRemove = filter (isOnDisk reg p) (validComponents reg comps) \<and>
         (validComponents reg comps \<noteq> [] \<and> toRemove = [] \<longrightarrow>
            remove reg comps yes confirmed p =
              (Completed, p,
               (if invalidComponents reg comps \<noteq> []
                then [UnknownComponents (invalidComponents reg comps)] else []) @
               [NoneInstalled])) \<and>
         (toRemove \<noteq> [] \<longrightarrow>
            remove reg comps yes confirmed p =
            remove reg
              (filter (\<lambda>nm. registry_get reg (toLowerCase nm) = None \<or>
                            isOnDisk reg p (toLowerCase nm)) comps)
              yes confirmed p)"
proof -
  let ?kept = "filter (\<lambda>nm. registry_get reg (toLowerCase nm) = None \<or>
                            isOnDisk reg p (toLowerCase nm)) comps"
  have excl: "toRemove = filter (isOnDisk reg p) (validComponents reg comps)"
    using disk by (rule onDisk_filter)
  from cfg have ex: "configExists p"
    by (auto simp: configExists_def readConfig_def split: ManifestFile.splits)
  have none: "validComponents reg comps \<noteq> [] \<and> toRemove = [] \<longrightarrow>
            remove reg comps yes confirmed p =
              (Completed, p,
               (if invalidComponents reg comps \<noteq> []
                then [UnknownComponents (invalidComponents reg comps)] else []) @
               [NoneInstalled])"
    using ex cfg disk by (simp add: remove_def Let_def)
  have same: "remove reg comps yes confirmed p = remove reg ?kept yes confirmed p"
    if ne: "toRemove \<noteq> []"
  proof -
    have inv: "invalidComponents reg ?kept = invalidComponents reg comps"
      by (rule invalidComponents_filter)
    have val: "validComponents reg ?kept = toRemove"
      using excl by (simp add: validComponents_filter)
    have "\<forall>nm \<in> set toRemove. isOnDisk reg p nm"
      using excl by auto
    then have disk': "onDisk reg p toRemove = Inr toRemove"
      by (rule onDisk_of_present)
    from ne disk have valne: "validComponents reg comps \<noteq> []" by auto
    show ?thesis
      unfolding remove_def inv val
      using ex cfg disk disk' ne valne by (simp add: Let_def)
  qed
  from excl none same show ?thesis by blast
qed

text \<open>Removing \<open>button\<close> and \<open>card\<close> from a project that has only \<open>button\<close>.\<close>

lemma registry_card:
  "registry_get registry ''card'' =
     Some (Component (component ''Card''
       ''A container for content with header, body, and footer sections'' [] [] [''Card.tsx'']))"
  by (simp add: registry_get_def registry_def)

lemma valid_button_card: "validComponents registry [''button'', ''card''] = [''button'', ''card'']"
  by (simp add: validComponents_def lower_simps registry_button registry_card)

lemma invalid_button_card: "invalidComponents registry [''button'', ''card''] = []"
  by (simp add: invalidComponents_def lower_simps registry_button registry_card)

lemma onDisk_button_card: "onDisk registry buttonInstalled [''button'', ''card''] = Inr [''button'']"
  by (simp add: registry_button registry_card firstFile_def component_def fileExists_def
        buttonInstalled_def projectWith_def)

text \<open>
  C7 as stated, at a mix of an installed and a never-installed valid name: \<open>card\<close> is
  valid and not on disk, the command completes, and all it prints is the count of the one
  component removed.
\<close>

theorem remove_unreported_counterexample:
  "registry_get registry (toLowerCase ''card'') \<noteq> None \<and>
   \<not> fileExists buttonInstalled ''Card.tsx'' \<and>
   fst (remove registry [''button'', ''card''] True False buttonInstalled) = Completed \<and>
   snd (snd (remove registry [''button'', ''card''] True False buttonInstalled)) = [Removed 1]"
proof -
  have known: "registry_get registry (toLowerCase ''card'') \<noteq> None"
    by (simp add: lower_simps registry_card)
  have absent: "\<not> fileExists buttonInstalled ''Card.tsx''"
    by (simp add: fileExists_def buttonInstalled_def projectWith_def)
  have doc: "manifestFile buttonInstalled = Document (defaultConfig\<lparr>installedComponents := [''button'']\<rparr>)"
    by (simp add: buttonInstalled_def projectWith_def)
  have rc: "readConfig buttonInstalled = Some (defaultConfig\<lparr>installedComponents := [''button'']\<rparr>)"
    by (simp add: readConfig_def doc)
  have ce: "configExists buttonInstalled" by (simp add: configExists_def doc)
  have "\<forall>nm \<in> set [''button'']. \<exists>d. registry_get registry nm = Some (Component d)"
    by (simp add: registry_button)
  moreover have "\<not> manifestReadOnly buttonInstalled"
    by (simp add: buttonInstalled_def projectWith_def)
  ultimately obtain p' where
    loop: "removeLoop registry [''button''] buttonInstalled = (None, p')"
    using removeLoop_result[OF _ doc] by blast
  have deps: "dependentComponents registry [''button''] [''button''] = []"
    by (simp add: dependentComponents_def registry_def component_def)
  have "remove registry [''button'', ''card''] True False buttonInstalled = (Completed, p', [Removed 1])"
    by (simp add: remove_def ce rc valid_button_card invalid_button_card onDisk_button_card
          deps loop del: onDisk.simps removeLoop.simps)
  with known absent show ?thesis by simp
qed

text \<open>
  Requesting \<open>card\<close> and \<open>Button\<close> where \<open>button\<close> and \<open>carousel\<close> are
  installed is requesting \<open>Button\<close>.
\<close>

theorem remove_drops_missing_witness:
  "onDisk registry buttonAndCarousel (validComponents registry [''card'', ''Button'']) =
     Inr [''button''] \<and>
   \<not> isOnDisk registry buttonAndCarousel ''card'' \<and>
   remove registry [''card'', ''Button''] True False buttonAndCarousel =
   remove registry [''Button''] True False buttonAndCarousel"
proof -
  have cfg: "readConfig buttonAndCarousel =
               Some (defaultConfig\<lparr>installedComponents := [''button'', ''carousel'']\<rparr>)"
    by (rule readConfig_buttonAndCarousel)
  have val: "validComponents registry [''card'', ''Button''] = [''card'', ''button'']"
    by (simp add: validComponents_def lower_simps registry_button registry_card)
  have disk: "onDisk registry buttonAndCarousel (validComponents registry [''card'', ''Button'']) =
              Inr [''button'']"
    unfolding val
    by (simp add: registry_button registry_card firstFile_def component_def fileExists_def
          buttonAndCarousel_def projectWith_def)
  have card: "\<not> isOnDisk registry buttonAndCarousel ''card''"
    by (simp add: isOnDisk_def registry_card firstFile_def component_def fileExists_def
          buttonAndCarousel_def projectWith_def)
  have button: "isOnDisk registry buttonAndCarousel ''button''"
    by (simp add: isOnDisk_def registry_button firstFile_def component_def fileExists_def
          buttonAndCarousel_def projectWith_def)
  have kept: "filter (\<lambda>nm. registry_get registry (toLowerCase nm) = None \<or>
                          isOnDisk registry buttonAndCarousel (toLowerCase nm))
                [''card'', ''Button''] = [''Button'']"
    using card button by (simp add: lower_simps registry_card)
  from remove_drops_missing_silently[OF cfg disk, of True False]
  have "remove registry [''card'', ''Button''] True False buttonAndCarousel =
        remove registry [''Button''] True False buttonAndCarousel"
    unfolding kept by simp
  with disk card show ?thesis by blast
qed

section \<open>Installed per manifest, missing on disk\<close>

text \<open>
  When the summary of \<open>diff\<close> completes, it holds the status line of every component
  that the manifest lists.
\<close>

lemma diffStatus_missing:
  "\<not> fileExists p f \<Longrightarrow> diffStatus env uip p d f = (StatusMissing (name d), False)"
  by (simp add: diffStatus_def fileExists_def)

lemma diffSummary_line:
  "diffSummary reg env uip p ns = (None, out, hm) \<Longrightarrow> nm \<in> set ns \<Longrightarrow>
   registry_get reg nm = Some (Component d) \<Longrightarrow> firstFile d = Inr f \<Longrightarrow>
   fst (diffStatus env uip p d f) \<in> set out"
proof (induction ns arbitrary: out hm)
  case Nil
  then show ?case by simp
next
  case (Cons x xs)
  show ?case
  proof (cases "x = nm")
    case True
    with Cons.prems show ?thesis
      by (auto split: prod.splits)
  next
    case False
    with Cons.prems(2) have mem: "nm \<in> set xs" by simp
    from Cons.prems(1) show ?thesis
    proof (cases "registry_get reg x")
      case None
      with Cons.prems(1) have "diffSummary reg env uip p xs = (None, out, hm)" by simp
      from Cons.IH[OF this mem Cons.prems(3,4)] show ?thesis .
    next
      case (Some entry)
      with Cons.prems(1) obtain dx fx out' hm' where
        rest: "diffSummary reg env uip p xs = (None, out', hm')" and
        out: "out = fst (diffStatus env uip p dx fx) # out'"
        by (auto split: property.splits sum.splits prod.splits)
      from Cons.IH[OF rest mem Cons.prems(3,4)] out show ?thesis by simp
    qed
  qed
qed

lemma diff_summary_line:
  assumes cfg: "readConfig p = Some cfg" and inst: "nm \<in> set (installedComponents cfg)"
    and comp: "registry_get reg nm = Some (Component d)" and first: "firstFile d = Inr f"
    and run: "diff reg env None p = (Completed, out)"
  shows "fst (diffStatus env
                (getUtilsImportPath (projectType env) (components (aliases cfg))
                   (utils (aliases cfg))) p d f) \<in> set out"
proof -
  let ?uip = "getUtilsImportPath (projectType env) (components (aliases cfg)) (utils (aliases cfg))"
  from cfg have ex: "configExists p"
    by (auto simp: configExists_def readConfig_def split: ManifestFile.splits)
  from inst have ne: "installedComponents cfg \<noteq> []" by auto
  from run ex cfg ne obtain out' hm where
    sum: "diffSummary reg env ?uip p (installedComponents cfg) = (None, out', hm)" and
    out: "out = out' @ (if hm then [DetailsHint] else [])"
    by (auto simp: diff_def diffInstalled_def Let_def split: prod.splits option.splits)
  from diffSummary_line[OF sum inst comp first] out show ?thesis by auto
qed

text \<open>The checking loop of \<open>update\<close> passes over a component whose first file is missing.\<close>

lemma updateCheck_skips_missing:
  assumes comp: "registry_get reg (toLowerCase nm) = Some (Component d)"
    and first: "firstFile d = Inr f" and missing: "\<not> fileExists p f"
  shows "updateCheck reg env uip p (pre @ nm # post) = updateCheck reg env uip p (pre @ post)"
proof (induction pre)
  case Nil
  from comp first missing show ?case by (simp add: fileExists_def)
next
  case (Cons x xs)
  then show ?case
    by (simp split: option.splits property.splits sum.splits)
qed

text \<open>
  C8, as the code has it. Let the manifest list \<open>nm\<close>, a lower-case key of a component
  of the registry whose first file is not on disk. The summary of \<open>diff\<close>, when it
  completes, reports the component as missing. \<open>update\<close> skips it without a word: in
  the checking loop the name contributes nothing at any position, so \<open>update\<close> of the
  name with other names does and prints what it does and prints for the other names, and
  \<open>update\<close> of this one name answers that all components are up to date.
\<close>

theorem missing_on_disk_diff_reports_update_skips:
  assumes cfg: "readConfig p = Some cfg" and inst: "nm \<in> set (installedComponents cfg)"
    and comp: "registry_get reg nm = Some (Component d)" and lower: "toLowerCase nm = nm"
    and first: "firstFile d = Inr f" and missing: "\<not> fileExists p f"
  shows "(\<forall>out. diff reg env None p = (Completed, out) \<longrightarrow> StatusMissing (name d) \<in> set out) \<and>
         (\<forall>pre post. updateCheck reg env uip p (pre @ nm # post) =
                      updateCheck reg env uip p (pre @ post)) \<and>
         (\<forall>pre post. pre @ post \<noteq> [] \<longrightarrow>
            update reg env (pre @ nm # post) yes confirmed p =
            update reg env (pre @ post) yes confirmed p) \<and>
         update reg env [nm] yes confirmed p = (Completed, p, [AllUpToDate])"
proof -
  from cfg have ex: "configExists p"
    by (auto simp: configExists_def readConfig_def split: ManifestFile.splits)
  have comp': "registry_get reg (toLowerCase nm) = Some (Component d)"
    using comp lower by simp
  have reported: "\<forall>out. diff reg env None p = (Completed, out) \<longrightarrow>
                    StatusMissing (name d) \<in> set out"
    using diff_summary_line[OF cfg inst comp first, of env] diffStatus_missing[OF missing]
    by (metis fst_conv)
  have skipped: "\<And>u pre post. updateCheck reg env u p (pre @ nm # post) =
                      updateCheck reg env u p (pre @ post)"
    by (rule updateCheck_skips_missing[OF comp' first missing])
  have command: "\<forall>pre post. pre @ post \<noteq> [] \<longrightarrow>
            update reg env (pre @ nm # post) yes confirmed p =
            update reg env (pre @ post) yes confirmed p"
    using ex cfg by (simp add: update_def Let_def skipped)
  have "updateCheck reg env u p [nm] = Inr []" for u
    using skipped[of u "[]" "[]"] by simp
  then have alone: "update reg env [nm] yes confirmed p = (Completed, p, [AllUpToDate])"
    using ex cfg by (simp add: update_def Let_def)
  from reported skipped command alone show ?thesis by blast
qed

text \<open>
  C8 as stated, at \<open>update\<close> with no argument in a project whose manifest lists
  \<open>button\<close> while \<open>Button.tsx\<close> is not on disk: the only line printed says that all
  components are up to date.
\<close>

theorem update_skips_missing_counterexample:
  "isComponentInstalled ''button'' buttonListedOnly \<and>
   registry_get registry (toLowerCase ''button'') \<noteq> None \<and>
   \<not> fileExists buttonListedOnly ''Button.tsx'' \<and>
   update registry (envWith [(''Button.tsx'', templateText)]) [] True False buttonListedOnly =
     (Completed, buttonListedOnly, [AllUpToDate])"
proof -
  have listed: "isComponentInstalled ''button'' buttonListedOnly"
    by (simp add: isComponentInstalled_def readConfig_def buttonListedOnly_def projectWith_def)
  have known: "registry_get registry (toLowerCase ''button'') \<noteq> None"
    by (simp add: lower_simps registry_button)
  have absent: "\<not> fileExists buttonListedOnly ''Button.tsx''"
    by (simp add: fileExists_def buttonListedOnly_def projectWith_def)
  have ce: "configExists buttonListedOnly"
    by (simp add: configExists_def buttonListedOnly_def projectWith_def)
  have rc: "readConfig buttonListedOnly = Some (defaultConfig\<lparr>installedComponents := [''button'']\<rparr>)"
    by (simp add: readConfig_def buttonListedOnly_def projectWith_def)
  have lb: "toLowerCase ''button'' = ''button''" by (simp add: lower_simps)
  have check: "updateCheck registry env u buttonListedOnly [''button''] = Inr []" for env u
    using absent by (simp add: lb registry_button firstFile_def component_def fileExists_def)
  have "update registry (envWith [(''Button.tsx'', templateText)]) [] True False buttonListedOnly =
     (Completed, buttonListedOnly, [AllUpToDate])"
    by (simp add: update_def ce rc check del: updateCheck.simps)
  with listed known absent show ?thesis by blast
qed

text \<open>The two commands on that project.\<close>

theorem missing_on_disk_witness:
  "diff registry (envWith [(''Button.tsx'', templateText)]) None buttonListedOnly =
     (Completed, [StatusMissing ''Button'']) \<and>
   update registry (envWith [(''Button.tsx'', templateText)]) [''button''] True False
     buttonListedOnly = (Completed, buttonListedOnly, [AllUpToDate])"
proof -
  let ?env = "envWith [(''Button.tsx'', templateText)]"
  let ?d = "component ''Button''
       ''A clickable button with multiple variants and ripple effect'' [] [] [''Button.tsx'']"
  have cfg: "readConfig buttonListedOnly = Some (defaultConfig\<lparr>installedComponents := [''button'']\<rparr>)"
    by (simp add: readConfig_def buttonListedOnly_def projectWith_def)
  have ce: "configExists buttonListedOnly"
    by (simp add: configExists_def buttonListedOnly_def projectWith_def)
  have inst: "''button'' \<in> set (installedComponents (defaultConfig\<lparr>installedComponents := [''button'']\<rparr>))"
    by simp
  have comp: "registry_get registry ''button'' = Some (Component ?d)" by (rule registry_button)
  have lower: "toLowerCase ''button'' = ''button''" by (simp add: lower_simps)
  have first: "firstFile ?d = Inr ''Button.tsx''" by (simp add: firstFile_def component_def)
  have missing: "\<not> fileExists buttonListedOnly ''Button.tsx''"
    by (simp add: fileExists_def buttonListedOnly_def projectWith_def)
  have nm: "name ?d = ''Button''" by (simp add: component_def)
  have st: "diffStatus env u buttonListedOnly ?d ''Button.tsx'' = (StatusMissing ''Button'', False)"
    for env u
    using diffStatus_missing[OF missing] nm by simp
  have run: "diff registry ?env None buttonListedOnly = (Completed, [StatusMissing ''Button''])"
    by (simp add: diff_def ce cfg diffInstalled_def comp first st Let_def)
  from missing_on_disk_diff_reports_update_skips[OF cfg inst comp lower first missing,
        of ?env _ True False]
  have "update registry ?env [''button''] True False buttonListedOnly =
          (Completed, buttonListedOnly, [AllUpToDate])"
    by blast
  with run show ?thesis by blast
qed

section \<open>A copy that holds the transformed template\<close>

lemma diffStatus_unmodified:
  assumes "templates env f = Some content"
    and "componentFiles p f = Some (transformContent uip content)"
  shows "diffStatus env uip p d f = (StatusUpToDate (name d), False)"
  using assms by (simp add: diffStatus_def)

lemma showDiff_unmodified:
  assumes "templates env f = Some content"
    and "componentFiles p f = Some (transformContent uip content)"
  shows "showDiff env uip p d f = [IsUpToDate (name d)]"
  using assms by (simp add: showDiff_def)

text \<open>
  C9. For every template text, every configuration and every project type: when the
  first file of a component holds exactly the transform of its template for the import
  path of that configuration, the comparison after \<open>trim\<close> finds no change. \<open>diff\<close>
  reports the component as up to date, in its report on the component and in every
  summary that completes, and \<open>update\<close> records it without changes and finds nothing to
  update.
\<close>

theorem transformed_copy_is_unmodified:
  assumes cfg: "readConfig p = Some cfg"
    and comp: "registry_get reg nm = Some (Component d)"
    and lower: "toLowerCase nm = nm" and nonempty: "nm \<noteq> []"
    and first: "firstFile d = Inr f"
    and src: "templates env f = Some content"
    and loc: "componentFiles p f =
                Some (transformContent
                        (getUtilsImportPath (projectType env) (components (aliases cfg))
                           (utils (aliases cfg))) content)"
  shows "diffStatus env
           (getUtilsImportPath (projectType env) (components (aliases cfg)) (utils (aliases cfg)))
           p d f = (StatusUpToDate (name d), False) \<and>
         diff reg env (Some nm) p = (Completed, [IsUpToDate (name d)]) \<and>
         (\<forall>out. nm \<in> set (installedComponents cfg) \<and> diff reg env None p = (Completed, out) \<longrightarrow>
                StatusUpToDate (name d) \<in> set out) \<and>
         updateCheck reg env
           (getUtilsImportPath (projectType env) (components (aliases cfg)) (utils (aliases cfg)))
           p [nm] = Inr [(nm, False)] \<and>
         update reg env [nm] yes confirmed p = (Completed, p, [AllUpToDate])"
proof -
  let ?uip = "getUtilsImportPath (projectType env) (components (aliases cfg)) (utils (aliases cfg))"
  from cfg have ex: "configExists p"
    by (auto simp: configExists_def readConfig_def split: ManifestFile.splits)
  from loc have present: "fileExists p f" by (simp add: fileExists_def)
  have status: "diffStatus env ?uip p d f = (StatusUpToDate (name d), False)"
    using src loc by (rule diffStatus_unmodified)
  have report: "showDiff env ?uip p d f = [IsUpToDate (name d)]"
    using src loc by (rule showDiff_unmodified)
  have one: "diff reg env (Some nm) p = (Completed, [IsUpToDate (name d)])"
    using ex cfg comp lower nonempty first present report
    by (simp add: diff_def diffComponent_def Let_def)
  have summary: "\<forall>out. nm \<in> set (installedComponents cfg) \<and>
                   diff reg env None p = (Completed, out) \<longrightarrow>
                   StatusUpToDate (name d) \<in> set out"
    using diff_summary_line[OF cfg _ comp first, of env] status by (metis fst_conv)
  have check: "updateCheck reg env ?uip p [nm] = Inr [(nm, False)]"
    using comp lower first src loc by simp
  have upd: "update reg env [nm] yes confirmed p = (Completed, p, [AllUpToDate])"
    using ex cfg check by (simp add: update_def Let_def del: updateCheck.simps)
  from status one summary check upd show ?thesis by blast
qed

text \<open>
  \<open>button\<close> as \<open>add\<close> installs it with the default configuration: the template with
  the import of \<open>../../lib/utils\<close> rewritten to \<open>@/lib/utils\<close>.
\<close>

theorem transformed_copy_witness:
  "transformContent
     (getUtilsImportPath (projectType (envWith [(''Button.tsx'', templateText)]))
        (components (aliases defaultConfig)) (utils (aliases defaultConfig)))
     templateText = installedText \<and>
   componentFiles buttonInstalled ''Button.tsx'' = Some installedText \<and>
   diff registry (envWith [(''Button.tsx'', templateText)]) (Some ''button'') buttonInstalled =
     (Completed, [IsUpToDate ''Button'']) \<and>
   update registry (envWith [(''Button.tsx'', templateText)]) [''button''] False True
     buttonInstalled = (Completed, buttonInstalled, [AllUpToDate])"
proof -
  let ?env = "envWith [(''Button.tsx'', templateText)]"
  let ?cfg = "defaultConfig\<lparr>installedComponents := [''button'']\<rparr>"
  let ?d = "component ''Button''
       ''A clickable button with multiple variants and ripple effect'' [] [] [''Button.tsx'']"
  have cfg: "readConfig buttonInstalled = Some ?cfg"
    by (simp add: readConfig_def buttonInstalled_def projectWith_def)
  have comp: "registry_get registry ''button'' = Some (Component ?d)" by (rule registry_button)
  have lower: "toLowerCase ''button'' = ''button''" by (simp add: lower_simps)
  have nonempty: "''button'' \<noteq> []" by simp
  have first: "firstFile ?d = Inr ''Button.tsx''" by (simp add: firstFile_def component_def)
  have src: "templates ?env ''Button.tsx'' = Some templateText" by (simp add: envWith_def)
  have path: "getUtilsImportPath (projectType ?env) (components (aliases ?cfg))
                (utils (aliases ?cfg)) = ''@/lib/utils''"
    by (simp add: envWith_def defaultConfig_def default_import_path)
  have path': "getUtilsImportPath (projectType ?env) (components (aliases defaultConfig))
                (utils (aliases defaultConfig)) = ''@/lib/utils''"
    by (simp add: envWith_def defaultConfig_def default_import_path)
  have local: "componentFiles buttonInstalled ''Button.tsx'' = Some installedText"
    by (simp add: buttonInstalled_def projectWith_def)
  have loc: "componentFiles buttonInstalled ''Button.tsx'' =
               Some (transformContent
                       (getUtilsImportPath (projectType ?env) (components (aliases ?cfg))
                          (utils (aliases ?cfg))) templateText)"
    unfolding path transform_templateText by (rule local)
  have nm: "name ?d = ''Button''" by (simp add: component_def)
  from transformed_copy_is_unmodified[OF cfg comp lower nonempty first src loc, of False True]
  have "diff registry ?env (Some ''button'') buttonInstalled = (Completed, [IsUpToDate ''Button'']) \<and>
        update registry ?env [''button''] False True buttonInstalled =
          (Completed, buttonInstalled, [AllUpToDate])"
    unfolding nm by blast
  moreover have "transformContent
     (getUtilsImportPath (projectType ?env) (components (aliases defaultConfig))
        (utils (aliases defaultConfig))) templateText = installedText"
    unfolding path' by (rule transform_templateText)
  ultimately show ?thesis using local by blast
qed

end
